theory Spec2Isabelle
  imports Main "HOL-Library.Char_ord" "HOL-Library.List_Lexorder" "HOL-Library.AList"
    "HOL-Library.Multiset"
begin

section \<open>The executor's job handler (enterprise/cmd/executor/internal/worker/handler.go)\<close>

text \<open>
  A shallow embedding of \<^verbatim>\<open>PreDequeue\<close>, \<^verbatim>\<open>Handle\<close>, \<^verbatim>\<open>buildScript\<close>,
  \<^verbatim>\<open>union\<close> and \<^verbatim>\<open>scriptNameFromJobStep\<close>. Go strings are byte strings
  (\<^typ>\<open>string\<close>), Go errors are values of the datatype \<open>err\<close>, a \<^verbatim>\<open>nil\<close> error is
  \<^term>\<open>None\<close>. Everything Handle does to the outside (the runner, the file system, the
  name set, the logger) is recorded, in order, in a list of events; the outside answers
  each call through a function of the events so far, so that the same call may succeed
  once and fail later.
\<close>

subsection \<open>Errors\<close>

text \<open>
  The errors the handler builds or inspects: the sentinel \<^verbatim>\<open>context.DeadlineExceeded\<close>,
  a leaf error with a message (\<^verbatim>\<open>errors.Errorf\<close>, or any error of a collaborator),
  \<^verbatim>\<open>errors.Wrap(cause, message)\<close>, and go-multierror's \<^verbatim>\<open>*multierror.Error\<close>
  with its list \<^verbatim>\<open>Errors\<close>.
\<close>

datatype err =
    DeadlineExceeded
  | Errorf string
  | Wrap err string
  | Multi "err list"

text \<open>\<^verbatim>\<open>errors.Is(err, context.DeadlineExceeded)\<close>: the sentinel itself, or an error
  whose chain of causes reaches it.\<close>

fun Is_DeadlineExceeded :: "err \<Rightarrow> bool" where
  "Is_DeadlineExceeded DeadlineExceeded = True"
| "Is_DeadlineExceeded (Errorf m) = False"
| "Is_DeadlineExceeded (Wrap e m) = Is_DeadlineExceeded e"
| "Is_DeadlineExceeded (Multi es) = list_ex Is_DeadlineExceeded es"

subsection \<open>Strings\<close>

text \<open>\<^verbatim>\<open>strings.Join(elems, sep)\<close>.\<close>

fun strings_Join :: "string list \<Rightarrow> string \<Rightarrow> string" where
  "strings_Join [] sep = []"
| "strings_Join [x] sep = x"
| "strings_Join (x # y # ys) sep = x @ sep @ strings_Join (y # ys) sep"

text \<open>\<^verbatim>\<open>strings.HasPrefix(s, prefix)\<close>.\<close>

definition strings_HasPrefix :: "string \<Rightarrow> string \<Rightarrow> bool" where
  "strings_HasPrefix s p = (take (length p) s = p)"

text \<open>\<^verbatim>\<open>strings.ReplaceAll(s, "/", "_")\<close>: the pattern is one byte long, so every
  occurrence is one byte of \<open>s\<close>.\<close>

definition replace_slashes :: "string \<Rightarrow> string" where
  "replace_slashes s = map (\<lambda>c. if c = CHR ''/'' then CHR ''_'' else c) s"

text \<open>The verb \<^verbatim>\<open>%d\<close> of \<^verbatim>\<open>fmt.Sprintf\<close>: decimal digits, with a minus sign for a
  negative integer.\<close>

definition digit :: "nat \<Rightarrow> char" where
  "digit d = ''0123456789'' ! d"

function fmt_nat :: "nat \<Rightarrow> string" where
  "fmt_nat n = (if n < 10 then [digit n] else fmt_nat (n div 10) @ [digit (n mod 10)])"
  by pat_completeness auto
termination
  by (relation "measure id") auto

declare fmt_nat.simps [simp del]

definition fmt_d :: "int \<Rightarrow> string" where
  "fmt_d x = (if x < 0 then CHR ''-'' # fmt_nat (nat (- x)) else fmt_nat (nat x))"

subsection \<open>Paths (path/filepath on a Unix host)\<close>

text \<open>The elements of a path between its separators.\<close>

fun split_path :: "string \<Rightarrow> string list" where
  "split_path [] = [[]]"
| "split_path (c # cs) =
     (if c = CHR ''/'' then [] # split_path cs
      else (case split_path cs of [] \<Rightarrow> [[c]] | e # es \<Rightarrow> (c # e) # es))"

definition filepath_IsAbs :: "string \<Rightarrow> bool" where
  "filepath_IsAbs p = strings_HasPrefix p ''/''"

text \<open>
  \<^verbatim>\<open>filepath.Clean\<close>, element by element: empty elements and \<^verbatim>\<open>.\<close> are dropped;
  \<^verbatim>\<open>..\<close> removes the element before it, is dropped at the root of a rooted path and
  is kept at the start of a relative one. \<open>out\<close> holds the elements kept so far, the last
  one first.
\<close>

fun clean_elems :: "bool \<Rightarrow> string list \<Rightarrow> string list \<Rightarrow> string list" where
  "clean_elems rooted out [] = rev out"
| "clean_elems rooted out (e # es) =
     (if e = [] \<or> e = ''.'' then clean_elems rooted out es
      else if e = ''..'' then
        (case out of
           [] \<Rightarrow> if rooted then clean_elems rooted [] es else clean_elems rooted [e] es
         | p # ps \<Rightarrow>
             if p = ''..'' then clean_elems rooted (e # out) es
             else clean_elems rooted ps es)
      else clean_elems rooted (e # out) es)"

definition filepath_Clean :: "string \<Rightarrow> string" where
  "filepath_Clean p =
     (if p = [] then ''.''
      else
        let rooted = filepath_IsAbs p;
            es = clean_elems rooted [] (split_path p)
        in if rooted then CHR ''/'' # strings_Join es ''/''
           else if es = [] then ''.''
           else strings_Join es ''/'')"

text \<open>\<^verbatim>\<open>filepath.Join\<close>: the elements from the first non-empty one on, joined by the
  separator and cleaned; the empty string when every element is empty.\<close>

definition filepath_Join :: "string list \<Rightarrow> string" where
  "filepath_Join elem =
     (case dropWhile (\<lambda>e. e = []) elem of
        [] \<Rightarrow> []
      | es \<Rightarrow> filepath_Clean (strings_Join es ''/''))"

text \<open>\<^verbatim>\<open>filepath.Abs\<close>: an absolute path is cleaned; a relative one is joined to the
  process's working directory, and \<^verbatim>\<open>os.Getwd\<close> (the argument \<open>getwd\<close>) may fail.\<close>

definition filepath_Abs :: "(err + string) \<Rightarrow> string \<Rightarrow> err + string" where
  "filepath_Abs getwd p =
     (if filepath_IsAbs p then Inr (filepath_Clean p)
      else (case getwd of
              Inl e \<Rightarrow> Inl e
            | Inr wd \<Rightarrow> Inr (filepath_Join [wd, p])))"

subsection \<open>Jobs, options and commands\<close>

text \<open>
  \<^verbatim>\<open>executor.Job\<close> and its steps. A Go map is kept as the list of its entries, in the
  order in which a \<^verbatim>\<open>range\<close> statement happens to visit them (Go leaves that order
  open, and the keys of a map are distinct); a statement about every job is a statement
  about every such order. The fields of \<^verbatim>\<open>CliStep\<close> and \<^verbatim>\<open>CommandSpec\<close> that share
  a name with a field of \<^verbatim>\<open>DockerStep\<close> carry a prefix.
\<close>

record DockerStep =
  Image :: string
  Commands :: "string list"
  Dir :: string
  Env :: "string list"

record CliStep =
  cli_Commands :: "string list"
  cli_Dir :: string
  cli_Env :: "string list"

record Job =
  ID :: int
  RepositoryName :: string
  Commit :: string
  VirtualMachineFiles :: "(string \<times> string) list"
  DockerSteps :: "DockerStep list"
  CliSteps :: "CliStep list"
  RedactedValues :: "(string \<times> string) list"

text \<open>The handler's \<^verbatim>\<open>Options\<close>, with \<^verbatim>\<open>WorkerOptions.NumHandlers\<close> as the field
  \<open>NumHandlers\<close>. The handler only reads \<^verbatim>\<open>FirecrackerOptions.Enabled\<close>; the resource
  options are a value it copies. A \<^verbatim>\<open>time.Duration\<close> is a number of nanoseconds.\<close>

record FirecrackerOptions =
  Enabled :: bool

type_synonym ResourceOptions = string

record Options =
  VMPrefix :: string
  FirecrackerOptions :: FirecrackerOptions
  ResourceOptions :: ResourceOptions
  NumHandlers :: int
  MaximumRuntimePerJob :: int
  opt_RedactedValues :: "(string \<times> string) list"

record handler =
  options :: Options
  operations_Exec :: string

text \<open>\<^verbatim>\<open>command.Options\<close> and \<^verbatim>\<open>command.CommandSpec\<close>, as the handler fills them.\<close>

record CommandOptions =
  ExecutorName :: string
  cmd_FirecrackerOptions :: FirecrackerOptions
  cmd_ResourceOptions :: ResourceOptions

record CommandSpec =
  Key :: string
  spec_Image :: string
  ScriptPath :: string
  Command :: "string list"
  spec_Dir :: string
  spec_Env :: "string list"
  Operation :: string

text \<open>A context is the background context or a context with a deadline (an instant,
  in nanoseconds) derived from a parent.\<close>

datatype "context" = Background | WithDeadline "context" int

subsection \<open>Events and the outside world\<close>

datatype write_site = VMFile | Script

text \<open>
  One event for each call that leaves the handler, with its arguments and its answer.
  \<open>EvWriteFile\<close> records which of the two \<^verbatim>\<open>os.WriteFile\<close> statements of Handle made
  the call. The \<^verbatim>\<open>log15.Info\<close> lines of Handle are not recorded.
\<close>

datatype event =
    EvNewLogger int "(string \<times> string) list"
  | EvRunnerFactory string CommandOptions
  | EvPrepareWorkspace "context" string string "err + string"
  | EvWriteFile write_site string string "err option"
  | EvNameSetAdd string
  | EvNameSetRemove string
  | EvSetup "context" "string list" "err option"
  | EvRun "context" CommandSpec "err option"
  | EvTeardown "context" "err option"
  | EvRemoveAll string
  | EvFlush
  | EvHoney "err option"
  | EvCancel

text \<open>
  The collaborators, each answering from the events so far: the clock, the method
  \<^verbatim>\<open>prepareWorkspace\<close> (it returns the working directory), the file system, the UUID
  generator (the text of the UUID), the runner and ignite. \<open>Duration_String\<close> is
  \<^verbatim>\<open>time.Duration.String\<close> and \<open>ScriptsPath\<close> the constant \<^verbatim>\<open>command.ScriptsPath\<close>.
\<close>

record env =
  time_Now :: "event list \<Rightarrow> int"
  Duration_String :: "int \<Rightarrow> string"
  honey_Enabled :: "event list \<Rightarrow> bool"
  ScriptsPath :: string
  prepareWorkspace :: "event list \<Rightarrow> context \<Rightarrow> string \<Rightarrow> string \<Rightarrow> err + string"
  os_Getwd :: "event list \<Rightarrow> err + string"
  os_WriteFile :: "event list \<Rightarrow> string \<Rightarrow> string \<Rightarrow> err option"
  uuid_NewRandom :: "event list \<Rightarrow> err + string"
  runner_Setup :: "event list \<Rightarrow> context \<Rightarrow> string list \<Rightarrow> err option"
  runner_Run :: "event list \<Rightarrow> context \<Rightarrow> CommandSpec \<Rightarrow> err option"
  runner_Teardown :: "event list \<Rightarrow> context \<Rightarrow> err option"
  ignite_CurrentlyRunningVMs :: "context \<Rightarrow> string \<Rightarrow> err + string list"


subsection \<open>PreDequeue\<close>

text \<open>The result: \<^verbatim>\<open>dequeueable\<close>, \<^verbatim>\<open>err\<close> and the warnings logged
  (\<^verbatim>\<open>extraDequeueArguments\<close> is always \<^verbatim>\<open>nil\<close>). A warning is its message with the
  two numbers logged beside it.\<close>

datatype warning = Warn string int int

definition PreDequeue :: "env \<Rightarrow> handler \<Rightarrow> bool \<times> err option \<times> warning list" where
  "PreDequeue env h =
     (if \<not> Enabled (FirecrackerOptions (options h)) then (True, None, [])
      else
        (case ignite_CurrentlyRunningVMs env Background (VMPrefix (options h)) of
           Inl e \<Rightarrow> (False, Some e, [])
         | Inr currentVMs \<Rightarrow>
             if int (length currentVMs) < NumHandlers (options h) then (True, None, [])
             else (False, None,
               [Warn ''Orphaned VMs detected - refusing to dequeue a new job until it's cleaned up''
                  (int (length currentVMs)) (NumHandlers (options h))])))"

subsection \<open>buildScript, union, scriptNameFromJobStep\<close>

definition scriptPreamble :: string where
  "scriptPreamble = [CHR 0x0A] @ ''set -x'' @ [CHR 0x0A]"

definition buildScript :: "DockerStep \<Rightarrow> string" where
  "buildScript dockerStep =
     strings_Join ([scriptPreamble, []] @ Commands dockerStep) [CHR 0x0A] @ [CHR 0x0A]"

text \<open>\<^verbatim>\<open>union\<close>: the entries of \<open>a\<close>, then those of \<open>b\<close>, assigned into a fresh map.\<close>

definition union :: "(string \<times> string) list \<Rightarrow> (string \<times> string) list \<Rightarrow> (string \<times> string) list" where
  "union a b =
     fold (\<lambda>(k, v) c. AList.update k v c) b (fold (\<lambda>(k, v) c. AList.update k v c) a [])"

definition scriptNameFromJobStep :: "Job \<Rightarrow> nat \<Rightarrow> string" where
  "scriptNameFromJobStep job i =
     fmt_d (ID job) @ ''.'' @ fmt_nat i @ ''_'' @ replace_slashes (RepositoryName job)
       @ ''@'' @ Commit job @ ''.sh''"

subsection \<open>Handle\<close>

text \<open>\<^verbatim>\<open>multierror.Append(err, teardownErr)\<close> with a non-nil second argument: a new
  aggregate of the first error (when there is one) and the second, where the members of
  an argument that is itself an aggregate are taken one level up.\<close>

fun flatten_err :: "err \<Rightarrow> err list" where
  "flatten_err (Multi es) = es"
| "flatten_err e = [e]"

definition multierror_Append :: "err option \<Rightarrow> err \<Rightarrow> err" where
  "multierror_Append e teardownErr =
     Multi ((case e of None \<Rightarrow> [] | Some e' \<Rightarrow> flatten_err e') @ flatten_err teardownErr)"

definition wrapError :: "env \<Rightarrow> handler \<Rightarrow> err \<Rightarrow> string \<Rightarrow> err" where
  "wrapError env h e message =
     Wrap (if Is_DeadlineExceeded e
           then Errorf (''job exceeded maximum execution time of ''
                  @ Duration_String env (MaximumRuntimePerJob (options h)))
           else e) message"

text \<open>The loop over \<^verbatim>\<open>job.VirtualMachineFiles\<close> (lines 108 to 121).\<close>

fun writeVMFiles :: "env \<Rightarrow> string \<Rightarrow> (string \<times> string) list \<Rightarrow> event list
    \<Rightarrow> err option \<times> event list" where
  "writeVMFiles env workingDirectory [] tr = (None, tr)"
| "writeVMFiles env workingDirectory ((relativePath, content) # rest) tr =
     (case filepath_Abs (os_Getwd env tr) (filepath_Join [workingDirectory, relativePath]) of
        Inl e \<Rightarrow> (Some e, tr)
      | Inr path \<Rightarrow>
          if \<not> strings_HasPrefix path workingDirectory
          then (Some (Errorf ''refusing to write outside of working directory''), tr)
          else
            (case os_WriteFile env tr path content of
               Some e \<Rightarrow> (Some e, tr @ [EvWriteFile VMFile path content (Some e)])
             | None \<Rightarrow>
                 writeVMFiles env workingDirectory rest
                   (tr @ [EvWriteFile VMFile path content None])))"

text \<open>The image names (lines 147 to 157): the keys of \<^verbatim>\<open>imageMap\<close>, a list without
  repetition, sorted by \<^verbatim>\<open>sort.Strings\<close>.\<close>

definition imageMap :: "DockerStep list \<Rightarrow> string list" where
  "imageMap steps = fold (\<lambda>dockerStep m. List.insert (Image dockerStep) m) steps []"

definition imageNames :: "DockerStep list \<Rightarrow> string list" where
  "imageNames steps = sort (imageMap steps)"

text \<open>The loop that writes the scripts (lines 159 to 169).\<close>

fun writeScripts :: "env \<Rightarrow> Job \<Rightarrow> string \<Rightarrow> nat \<Rightarrow> DockerStep list \<Rightarrow> string list
    \<Rightarrow> event list \<Rightarrow> (err + string list) \<times> event list" where
  "writeScripts env job workingDirectory i [] scriptNames tr = (Inr scriptNames, tr)"
| "writeScripts env job workingDirectory i (dockerStep # rest) scriptNames tr =
     (let scriptName = scriptNameFromJobStep job i;
          scriptPath = filepath_Join [workingDirectory, ScriptsPath env, scriptName];
          r = os_WriteFile env tr scriptPath (buildScript dockerStep);
          tr' = tr @ [EvWriteFile Script scriptPath (buildScript dockerStep) r]
      in case r of
           Some e \<Rightarrow> (Inl e, tr')
         | None \<Rightarrow>
             writeScripts env job workingDirectory (Suc i) rest
               (scriptNames @ [scriptName]) tr')"

text \<open>The two loops over the steps (lines 186 to 219). \<open>scriptNames ! i\<close> is in range:
  the list has one name for each docker step.\<close>

definition dockerStepCommand :: "handler \<Rightarrow> string list \<Rightarrow> nat \<Rightarrow> DockerStep \<Rightarrow> CommandSpec" where
  "dockerStepCommand h scriptNames i dockerStep =
     \<lparr>Key = ''step.docker.'' @ fmt_nat i, spec_Image = Image dockerStep,
      ScriptPath = scriptNames ! i, Command = [], spec_Dir = Dir dockerStep,
      spec_Env = Env dockerStep, Operation = operations_Exec h\<rparr>"

definition cliStepCommand :: "handler \<Rightarrow> nat \<Rightarrow> CliStep \<Rightarrow> CommandSpec" where
  "cliStepCommand h i cliStep =
     \<lparr>Key = ''step.src.'' @ fmt_nat i, spec_Image = [], ScriptPath = [],
      Command = ''src'' # cli_Commands cliStep, spec_Dir = cli_Dir cliStep,
      spec_Env = cli_Env cliStep, Operation = operations_Exec h\<rparr>"

fun runDockerSteps :: "env \<Rightarrow> handler \<Rightarrow> context \<Rightarrow> string list \<Rightarrow> nat \<Rightarrow> DockerStep list
    \<Rightarrow> event list \<Rightarrow> err option \<times> event list" where
  "runDockerSteps env h ctx scriptNames i [] tr = (None, tr)"
| "runDockerSteps env h ctx scriptNames i (dockerStep # rest) tr =
     (let cmd = dockerStepCommand h scriptNames i dockerStep;
          r = runner_Run env tr ctx cmd;
          tr' = tr @ [EvRun ctx cmd r]
      in case r of
           Some e \<Rightarrow> (Some (wrapError env h e ''failed to perform docker step''), tr')
         | None \<Rightarrow> runDockerSteps env h ctx scriptNames (Suc i) rest tr')"

fun runCliSteps :: "env \<Rightarrow> handler \<Rightarrow> context \<Rightarrow> nat \<Rightarrow> CliStep list
    \<Rightarrow> event list \<Rightarrow> err option \<times> event list" where
  "runCliSteps env h ctx i [] tr = (None, tr)"
| "runCliSteps env h ctx i (cliStep # rest) tr =
     (let cmd = cliStepCommand h i cliStep;
          r = runner_Run env tr ctx cmd;
          tr' = tr @ [EvRun ctx cmd r]
      in case r of
           Some e \<Rightarrow> (Some (wrapError env h e ''failed to perform src-cli step''), tr')
         | None \<Rightarrow> runCliSteps env h ctx (Suc i) rest tr')"

definition runSteps :: "env \<Rightarrow> handler \<Rightarrow> context \<Rightarrow> Job \<Rightarrow> string list \<Rightarrow> event list
    \<Rightarrow> err option \<times> event list" where
  "runSteps env h ctx job scriptNames tr =
     (case runDockerSteps env h ctx scriptNames 0 (DockerSteps job) tr of
        (Some e, tr') \<Rightarrow> (Some e, tr')
      | (None, tr') \<Rightarrow> runCliSteps env h ctx 0 (CliSteps job) tr')"

text \<open>Lines 171 to 221: Setup, the deferred Teardown under \<^verbatim>\<open>context.Background()\<close>,
  and the steps. The deferred function runs after the steps have set the result, and
  replaces the result when Teardown fails.\<close>

definition withVM :: "env \<Rightarrow> handler \<Rightarrow> context \<Rightarrow> Job \<Rightarrow> string list \<Rightarrow> event list
    \<Rightarrow> err option \<times> event list" where
  "withVM env h ctx job scriptNames tr =
     (let r = runner_Setup env tr ctx (imageNames (DockerSteps job));
          tr1 = tr @ [EvSetup ctx (imageNames (DockerSteps job)) r]
      in case r of
           Some e \<Rightarrow> (Some (wrapError env h e ''failed to setup virtual machine''), tr1)
         | None \<Rightarrow>
             (case runSteps env h ctx job scriptNames tr1 of
                (res, tr2) \<Rightarrow>
                  let teardownErr = runner_Teardown env tr2 Background;
                      tr3 = tr2 @ [EvTeardown Background teardownErr]
                  in (case teardownErr of
                        None \<Rightarrow> (res, tr3)
                      | Some te \<Rightarrow> (Some (multierror_Append res te), tr3))))"

text \<open>Lines 123 to 169: the name of the VM, the name set (with the deferred Remove),
  the runner and the scripts.\<close>

definition provision :: "env \<Rightarrow> handler \<Rightarrow> context \<Rightarrow> Job \<Rightarrow> string \<Rightarrow> event list
    \<Rightarrow> err option \<times> event list" where
  "provision env h ctx job workingDirectory tr =
     (case uuid_NewRandom env tr of
        Inl e \<Rightarrow> (Some e, tr)
      | Inr vmNameSuffix \<Rightarrow>
          let name = VMPrefix (options h) @ ''-'' @ vmNameSuffix;
              tr1 = tr @ [EvNameSetAdd name];
              opts = \<lparr>ExecutorName = name,
                      cmd_FirecrackerOptions = FirecrackerOptions (options h),
                      cmd_ResourceOptions = ResourceOptions (options h)\<rparr>;
              tr2 = tr1 @ [EvRunnerFactory workingDirectory opts]
          in (case (case writeScripts env job workingDirectory 0 (DockerSteps job) [] tr2 of
                      (Inl e, tr3) \<Rightarrow> (Some e, tr3)
                    | (Inr scriptNames, tr3) \<Rightarrow> withVM env h ctx job scriptNames tr3) of
                (res, tr4) \<Rightarrow> (res, tr4 @ [EvNameSetRemove name])))"

text \<open>Lines 103 to 121: the deferred removal of the working directory and the loop
  over the virtual machine files.\<close>

definition inWorkspace :: "env \<Rightarrow> handler \<Rightarrow> context \<Rightarrow> Job \<Rightarrow> string \<Rightarrow> event list
    \<Rightarrow> err option \<times> event list" where
  "inWorkspace env h ctx job workingDirectory tr =
     (case (case writeVMFiles env workingDirectory (VirtualMachineFiles job) tr of
              (Some e, tr1) \<Rightarrow> (Some e, tr1)
            | (None, tr1) \<Rightarrow> provision env h ctx job workingDirectory tr1) of
        (res, tr2) \<Rightarrow> (res, tr2 @ [EvRemoveAll workingDirectory]))"

text \<open>Handle: the error it returns and the events of the call, the deferred calls last
  and in the reverse of the order of their \<^verbatim>\<open>defer\<close> statements.\<close>

definition Handle :: "env \<Rightarrow> handler \<Rightarrow> context \<Rightarrow> Job \<Rightarrow> err option \<times> event list" where
  "Handle env h ctx0 job =
     (let ctx = WithDeadline ctx0 (time_Now env [] + MaximumRuntimePerJob (options h));
          tr1 = [EvNewLogger (ID job)
                   (union (opt_RedactedValues (options h)) (RedactedValues job))];
          tr2 = tr1 @ [EvRunnerFactory []
                   \<lparr>ExecutorName = [], cmd_FirecrackerOptions = \<lparr>Enabled = False\<rparr>,
                    cmd_ResourceOptions = []\<rparr>];
          pw = prepareWorkspace env tr2 ctx (RepositoryName job) (Commit job);
          tr3 = tr2 @ [EvPrepareWorkspace ctx (RepositoryName job) (Commit job) pw]
      in case (case pw of
                 Inl e \<Rightarrow> (Some (wrapError env h e ''failed to prepare workspace''), tr3)
               | Inr workingDirectory \<Rightarrow> inWorkspace env h ctx job workingDirectory tr3) of
           (res, tr4) \<Rightarrow>
             (res, tr4 @ [EvFlush]
                     @ (if honey_Enabled env (tr4 @ [EvFlush]) then [EvHoney res] else [])
                     @ [EvCancel]))"

subsection \<open>Reading the events\<close>

text \<open>The kind of an event: which call it records.\<close>

datatype event_kind = KNewLogger | KRunnerFactory | KPrepareWorkspace | KVMWrite | KScriptWrite
  | KNameSetAdd | KNameSetRemove | KSetup | KRun | KTeardown | KRemoveAll | KFlush | KHoney
  | KCancel

fun kind :: "event \<Rightarrow> event_kind" where
  "kind (EvNewLogger i m) = KNewLogger"
| "kind (EvRunnerFactory d opts) = KRunnerFactory"
| "kind (EvPrepareWorkspace c r k res) = KPrepareWorkspace"
| "kind (EvWriteFile VMFile p c res) = KVMWrite"
| "kind (EvWriteFile Script p c res) = KScriptWrite"
| "kind (EvNameSetAdd n) = KNameSetAdd"
| "kind (EvNameSetRemove n) = KNameSetRemove"
| "kind (EvSetup c imgs res) = KSetup"
| "kind (EvRun c cmd res) = KRun"
| "kind (EvTeardown c res) = KTeardown"
| "kind (EvRemoveAll d) = KRemoveAll"
| "kind EvFlush = KFlush"
| "kind (EvHoney res) = KHoney"
| "kind EvCancel = KCancel"

text \<open>The commands of the steps in their declared order, with their indices, and the
  names of the scripts.\<close>

definition dockerCommands :: "handler \<Rightarrow> string list \<Rightarrow> nat \<Rightarrow> DockerStep list \<Rightarrow> CommandSpec list" where
  "dockerCommands h scriptNames i steps =
     map (\<lambda>(j, d). dockerStepCommand h scriptNames j d) (enumerate i steps)"

definition cliCommands :: "handler \<Rightarrow> nat \<Rightarrow> CliStep list \<Rightarrow> CommandSpec list" where
  "cliCommands h i steps = map (\<lambda>(j, c). cliStepCommand h j c) (enumerate i steps)"

definition scriptNamesOf :: "Job \<Rightarrow> nat \<Rightarrow> DockerStep list \<Rightarrow> string list" where
  "scriptNamesOf job i steps = map (\<lambda>(j, d). scriptNameFromJobStep job j) (enumerate i steps)"

definition stepCommands :: "handler \<Rightarrow> Job \<Rightarrow> CommandSpec list" where
  "stepCommands h job =
     dockerCommands h (scriptNamesOf job 0 (DockerSteps job)) 0 (DockerSteps job)
       @ cliCommands h 0 (CliSteps job)"

subsection \<open>The shape of a run\<close>

definition passes_guard :: "(err + string) \<Rightarrow> string \<Rightarrow> string \<Rightarrow> bool" where
  "passes_guard getwd workingDirectory relativePath =
     (case filepath_Abs getwd (filepath_Join [workingDirectory, relativePath]) of
        Inl e \<Rightarrow> False
      | Inr path \<Rightarrow> strings_HasPrefix path workingDirectory)"

definition scriptWrite :: "env \<Rightarrow> Job \<Rightarrow> string \<Rightarrow> err option \<Rightarrow> nat \<times> DockerStep \<Rightarrow> event" where
  "scriptWrite env job workingDirectory r =
     (\<lambda>(j, d). EvWriteFile Script
        (filepath_Join [workingDirectory, ScriptsPath env, scriptNameFromJobStep job j])
        (buildScript d) r)"

definition jobContext :: "env \<Rightarrow> handler \<Rightarrow> context \<Rightarrow> context" where
  "jobContext env h ctx0 = WithDeadline ctx0 (time_Now env [] + MaximumRuntimePerJob (options h))"

definition handle_pre :: "env \<Rightarrow> handler \<Rightarrow> context \<Rightarrow> Job \<Rightarrow> (err + string) \<Rightarrow> event list" where
  "handle_pre env h ctx0 job pw =
     [EvNewLogger (ID job) (union (opt_RedactedValues (options h)) (RedactedValues job)),
      EvRunnerFactory []
        \<lparr>ExecutorName = [], cmd_FirecrackerOptions = \<lparr>Enabled = False\<rparr>, cmd_ResourceOptions = []\<rparr>,
      EvPrepareWorkspace (jobContext env h ctx0) (RepositoryName job) (Commit job) pw]"

definition vmName :: "handler \<Rightarrow> string \<Rightarrow> string" where
  "vmName h vmNameSuffix = VMPrefix (options h) @ ''-'' @ vmNameSuffix"

definition name_events :: "handler \<Rightarrow> string \<Rightarrow> string \<Rightarrow> event list" where
  "name_events h workingDirectory vmNameSuffix =
     [EvNameSetAdd (vmName h vmNameSuffix),
      EvRunnerFactory workingDirectory
        \<lparr>ExecutorName = vmName h vmNameSuffix,
         cmd_FirecrackerOptions = FirecrackerOptions (options h),
         cmd_ResourceOptions = ResourceOptions (options h)\<rparr>]"

definition run_events :: "env \<Rightarrow> handler \<Rightarrow> context \<Rightarrow> Job \<Rightarrow> err option \<Rightarrow> event list \<Rightarrow> bool" where
  "run_events env h ctx job r evs =
     ((r = None \<and> evs = map (\<lambda>c. EvRun ctx c None) (stepCommands h job))
      \<or> (\<exists>k e. k < length (stepCommands h job)
            \<and> r = Some (wrapError env h e
                  (if k < length (DockerSteps job) then ''failed to perform docker step''
                   else ''failed to perform src-cli step''))
            \<and> evs = map (\<lambda>c. EvRun ctx c None) (take k (stepCommands h job))
                  @ [EvRun ctx (stepCommands h job ! k) (Some e)]))"

definition script_fail_events :: "env \<Rightarrow> Job \<Rightarrow> string \<Rightarrow> err \<Rightarrow> event list \<Rightarrow> bool" where
  "script_fail_events env job wd e evs =
     (\<exists>k. k < length (DockerSteps job)
        \<and> evs = map (scriptWrite env job wd None) (take k (enumerate 0 (DockerSteps job)))
              @ [scriptWrite env job wd (Some e) (enumerate 0 (DockerSteps job) ! k)])"

definition script_events :: "env \<Rightarrow> Job \<Rightarrow> string \<Rightarrow> event list" where
  "script_events env job wd = map (scriptWrite env job wd None) (enumerate 0 (DockerSteps job))"

definition setup_failed :: "env \<Rightarrow> handler \<Rightarrow> context \<Rightarrow> Job \<Rightarrow> err option \<Rightarrow> event list \<Rightarrow> bool" where
  "setup_failed env h ctx job r evs =
     (\<exists>e. r = Some (wrapError env h e ''failed to setup virtual machine'')
        \<and> evs = [EvSetup ctx (imageNames (DockerSteps job)) (Some e)])"

definition setup_ok :: "env \<Rightarrow> handler \<Rightarrow> context \<Rightarrow> Job \<Rightarrow> err option \<Rightarrow> event list \<Rightarrow> bool" where
  "setup_ok env h ctx job r evs =
     (\<exists>sr runs td. run_events env h ctx job sr runs
        \<and> r = (case td of None \<Rightarrow> sr | Some te \<Rightarrow> Some (multierror_Append sr te))
        \<and> evs = EvSetup ctx (imageNames (DockerSteps job)) None # runs @ [EvTeardown Background td])"

definition vm_events :: "string \<Rightarrow> (string \<times> string) list \<Rightarrow> event list \<Rightarrow> bool" where
  "vm_events wd fs evs =
     (length evs \<le> length fs
      \<and> list_all2 (\<lambda>ev (rel, c). \<exists>p res. ev = EvWriteFile VMFile p c res \<and> strings_HasPrefix p wd)
           evs (take (length evs) fs))"

definition deferred_events :: "err option \<Rightarrow> event list \<Rightarrow> bool" where
  "deferred_events res evs =
     (evs = [EvFlush, EvCancel] \<or> evs = [EvFlush, EvHoney res, EvCancel])"

text \<open>The error that \<^verbatim>\<open>wrapError\<close> puts in the place of a deadline error.\<close>

definition job_exceeded :: "env \<Rightarrow> handler \<Rightarrow> err" where
  "job_exceeded env h =
     Errorf (''job exceeded maximum execution time of ''
       @ Duration_String env (MaximumRuntimePerJob (options h)))"

subsection \<open>Sample inputs\<close>

definition sample_options :: Options where
  "sample_options =
     \<lparr>VMPrefix = ''executor'', FirecrackerOptions = \<lparr>Enabled = True\<rparr>, ResourceOptions = [],
      NumHandlers = 2, MaximumRuntimePerJob = 1000000000,
      opt_RedactedValues = [(''hunter2'', ''REDACTED'')]\<rparr>"

definition sample_handler :: handler where
  "sample_handler = \<lparr>options = sample_options, operations_Exec = ''exec''\<rparr>"

text \<open>A world in which every call succeeds, but for the answers given as arguments: the
  running VMs, the runner's answer to Run and its answer to Teardown.\<close>

definition sample_env :: "(err + string list) \<Rightarrow> (CommandSpec \<Rightarrow> err option) \<Rightarrow> err option \<Rightarrow> env" where
  "sample_env vms run teardown =
     \<lparr>time_Now = (\<lambda>tr. 0), Duration_String = (\<lambda>d. ''1s''), honey_Enabled = (\<lambda>tr. False),
      ScriptsPath = ''.sourcegraph-executor'',
      prepareWorkspace = (\<lambda>tr c repo commit. Inr ''/tmp/work''),
      os_Getwd = (\<lambda>tr. Inr ''/''),
      os_WriteFile = (\<lambda>tr p c. None),
      uuid_NewRandom = (\<lambda>tr. Inr ''6ba7b810-9dad-41d1-80b4-00c04fd430c8''),
      runner_Setup = (\<lambda>tr c imgs. None),
      runner_Run = (\<lambda>tr c cmd. run cmd),
      runner_Teardown = (\<lambda>tr c. teardown),
      ignite_CurrentlyRunningVMs = (\<lambda>c p. vms)\<rparr>"

definition sample_job :: Job where
  "sample_job =
     \<lparr>ID = 42, RepositoryName = ''github.com/sourcegraph/sourcegraph'', Commit = ''deadbeef'',
      VirtualMachineFiles = [(''input.txt'', ''hello'')],
      DockerSteps =
        [\<lparr>Image = ''alpine:3'', Commands = [''echo one'', ''echo two''], Dir = ''.'', Env = []\<rparr>,
         \<lparr>Image = ''alpine:3'', Commands = [''ls''], Dir = ''sub'', Env = [''A=b'']\<rparr>],
      CliSteps = [\<lparr>cli_Commands = [''lsif'', ''upload''], cli_Dir = ''.'', cli_Env = []\<rparr>],
      RedactedValues = [(''token'', ''REDACTED'')]\<rparr>"

definition deadline_at_step1 :: "CommandSpec \<Rightarrow> err option" where
  "deadline_at_step1 cmd = (if Key cmd = ''step.docker.1'' then Some DeadlineExceeded else None)"

definition deadline_env :: env where
  "deadline_env = sample_env (Inr []) deadline_at_step1 (Some (Errorf ''boom''))"

definition ok_env :: env where
  "ok_env = sample_env (Inr []) (\<lambda>cmd. None) None"

definition images_job :: Job where
  "images_job = sample_job
     \<lparr>DockerSteps :=
        [\<lparr>Image = ''node:16'', Commands = [''yarn''], Dir = ''.'', Env = []\<rparr>,
         \<lparr>Image = ''alpine:3'', Commands = [''ls''], Dir = ''.'', Env = []\<rparr>,
         \<lparr>Image = ''node:16'', Commands = [''yarn test''], Dir = ''.'', Env = []\<rparr>]\<rparr>"

definition clash_job :: Job where
  "clash_job = sample_job\<lparr>RedactedValues := [(''hunter2'', ''***'')]\<rparr>"

definition deadline_only_env :: env where
  "deadline_only_env = sample_env (Inr []) deadline_at_step1 None"

definition escape_job :: Job where
  "escape_job = sample_job\<lparr>VirtualMachineFiles := [(''a.txt'', ''x''), (''../escape'', ''y''), (''b.txt'', ''z'')]\<rparr>"

definition sibling_job :: Job where
  "sibling_job = sample_job\<lparr>VirtualMachineFiles := [(''../work-evil/x'', ''y'')]\<rparr>"

section \<open>Properties\<close>

subsection \<open>The events of the loops and of Handle\<close>

lemma writeVMFiles_events:
  "writeVMFiles env wd fs tr = (r, tr') \<Longrightarrow>
   \<exists>evs. tr' = tr @ evs \<and> length evs \<le> length fs
     \<and> (r = None \<longrightarrow> length evs = length fs)
     \<and> list_all2 (\<lambda>ev (rel, c). \<exists>p res. ev = EvWriteFile VMFile p c res \<and> strings_HasPrefix p wd)
          evs (take (length evs) fs)"
proof (induction fs arbitrary: tr)
  case Nil
  then show ?case by simp
next
  case (Cons f fs)
  obtain rel c where f: "f = (rel, c)" by (cases f)
  show ?case
  proof (cases "filepath_Abs (os_Getwd env tr) (filepath_Join [wd, rel])")
    case (Inl e)
    with Cons.prems f show ?thesis by auto
  next
    case (Inr p)
    show ?thesis
    proof (cases "strings_HasPrefix p wd")
      case False
      with Cons.prems f Inr show ?thesis by auto
    next
      case True
      show ?thesis
      proof (cases "os_WriteFile env tr p c")
        case (Some e)
        with Cons.prems f Inr True show ?thesis by auto
      next
        case None
        with Cons.prems f Inr True
        have "writeVMFiles env wd fs (tr @ [EvWriteFile VMFile p c None]) = (r, tr')" by simp
        from Cons.IH [OF this] obtain evs where
          evs: "tr' = (tr @ [EvWriteFile VMFile p c None]) @ evs" "length evs \<le> length fs"
            "r = None \<longrightarrow> length evs = length fs"
            "list_all2 (\<lambda>ev (rel, c). \<exists>p res. ev = EvWriteFile VMFile p c res \<and> strings_HasPrefix p wd)
               evs (take (length evs) fs)"
          by blast
        show ?thesis
          apply (rule exI [of _ "EvWriteFile VMFile p c None # evs"])
          using evs f True by simp
      qed
    qed
  qed
qed

lemma writeVMFiles_rejects:
  "writeVMFiles env wd (before @ (rel, c) # after) tr = (r, tr') \<Longrightarrow>
   \<forall>g. \<not> passes_guard g wd rel \<Longrightarrow>
   r \<noteq> None \<and> (\<exists>evs. tr' = tr @ evs \<and> length evs \<le> length before
     \<and> list_all2 (\<lambda>ev (rel, c). \<exists>p res. ev = EvWriteFile VMFile p c res \<and> strings_HasPrefix p wd)
          evs (take (length evs) before))"
proof (induction before arbitrary: tr)
  case Nil
  then show ?case
    by (auto simp: passes_guard_def split: sum.splits if_splits)
next
  case (Cons f fs)
  obtain rel' c' where f: "f = (rel', c')" by (cases f)
  show ?case
  proof (cases "filepath_Abs (os_Getwd env tr) (filepath_Join [wd, rel'])")
    case (Inl e)
    with Cons.prems f show ?thesis by auto
  next
    case (Inr p)
    show ?thesis
    proof (cases "strings_HasPrefix p wd")
      case False
      with Cons.prems f Inr show ?thesis by auto
    next
      case True
      show ?thesis
      proof (cases "os_WriteFile env tr p c'")
        case (Some e)
        with Cons.prems f Inr True
        have "r = Some e" "tr' = tr @ [EvWriteFile VMFile p c' (Some e)]" by auto
        then have "r \<noteq> None \<and> tr' = tr @ [EvWriteFile VMFile p c' (Some e)]
            \<and> length [EvWriteFile VMFile p c' (Some e)] \<le> length (f # fs)
            \<and> list_all2 (\<lambda>ev (rel, c). \<exists>p res. ev = EvWriteFile VMFile p c res \<and> strings_HasPrefix p wd)
               [EvWriteFile VMFile p c' (Some e)]
               (take (length [EvWriteFile VMFile p c' (Some e)]) (f # fs))"
          using f True by simp
        then show ?thesis by blast
      next
        case None
        with Cons.prems f Inr True
        have "writeVMFiles env wd (fs @ (rel, c) # after) (tr @ [EvWriteFile VMFile p c' None]) = (r, tr')"
          by simp
        from Cons.IH [OF this Cons.prems(2)] obtain evs where
          evs: "r \<noteq> None" "tr' = (tr @ [EvWriteFile VMFile p c' None]) @ evs"
            "length evs \<le> length fs"
            "list_all2 (\<lambda>ev (rel, c). \<exists>p res. ev = EvWriteFile VMFile p c res \<and> strings_HasPrefix p wd)
               evs (take (length evs) fs)"
          by blast
        have "tr' = tr @ (EvWriteFile VMFile p c' None # evs)
            \<and> length (EvWriteFile VMFile p c' None # evs) \<le> length (f # fs)
            \<and> list_all2 (\<lambda>ev (rel, c). \<exists>p res. ev = EvWriteFile VMFile p c res \<and> strings_HasPrefix p wd)
               (EvWriteFile VMFile p c' None # evs)
               (take (length (EvWriteFile VMFile p c' None # evs)) (f # fs))"
          using evs f True by simp
        with evs(1) show ?thesis by blast
      qed
    qed
  qed
qed

lemma writeScripts_events:
  "writeScripts env job wd i ds names tr = (r, tr') \<Longrightarrow>
   (r = Inr (names @ scriptNamesOf job i ds)
      \<and> tr' = tr @ map (scriptWrite env job wd None) (enumerate i ds))
   \<or> (\<exists>k e. k < length ds \<and> r = Inl e
      \<and> tr' = tr @ map (scriptWrite env job wd None) (take k (enumerate i ds))
               @ [scriptWrite env job wd (Some e) (enumerate i ds ! k)])"
proof (induction ds arbitrary: i names tr)
  case Nil
  then show ?case by (simp add: scriptNamesOf_def)
next
  case (Cons d ds)
  let ?p = "filepath_Join [wd, ScriptsPath env, scriptNameFromJobStep job i]"
  show ?case
  proof (cases "os_WriteFile env tr ?p (buildScript d)")
    case (Some e)
    with Cons.prems have "r = Inl e" "tr' = tr @ [scriptWrite env job wd (Some e) (i, d)]"
      by (auto simp: scriptWrite_def Let_def)
    then have "0 < length (d # ds) \<and> r = Inl e
      \<and> tr' = tr @ map (scriptWrite env job wd None) (take 0 (enumerate i (d # ds)))
               @ [scriptWrite env job wd (Some e) (enumerate i (d # ds) ! 0)]"
      by simp
    then show ?thesis by blast
  next
    case None
    with Cons.prems have
      "writeScripts env job wd (Suc i) ds (names @ [scriptNameFromJobStep job i])
         (tr @ [scriptWrite env job wd None (i, d)]) = (r, tr')"
      by (simp add: scriptWrite_def Let_def)
    from Cons.IH [OF this] show ?thesis
    proof
      assume "r = Inr ((names @ [scriptNameFromJobStep job i]) @ scriptNamesOf job (Suc i) ds)
        \<and> tr' = (tr @ [scriptWrite env job wd None (i, d)])
            @ map (scriptWrite env job wd None) (enumerate (Suc i) ds)"
      then show ?thesis by (simp add: scriptNamesOf_def)
    next
      assume "\<exists>k e. k < length ds \<and> r = Inl e
        \<and> tr' = (tr @ [scriptWrite env job wd None (i, d)])
            @ map (scriptWrite env job wd None) (take k (enumerate (Suc i) ds))
            @ [scriptWrite env job wd (Some e) (enumerate (Suc i) ds ! k)]"
      then obtain k e where k: "k < length ds" "r = Inl e"
        "tr' = (tr @ [scriptWrite env job wd None (i, d)])
            @ map (scriptWrite env job wd None) (take k (enumerate (Suc i) ds))
            @ [scriptWrite env job wd (Some e) (enumerate (Suc i) ds ! k)]"
        by blast
      then have "Suc k < length (d # ds) \<and> r = Inl e
        \<and> tr' = tr @ map (scriptWrite env job wd None) (take (Suc k) (enumerate i (d # ds)))
               @ [scriptWrite env job wd (Some e) (enumerate i (d # ds) ! Suc k)]"
        by simp
      then show ?thesis by blast
    qed
  qed
qed

lemma runDockerSteps_events:
  "runDockerSteps env h ctx sn i ds tr = (r, tr') \<Longrightarrow>
   (r = None \<and> tr' = tr @ map (\<lambda>c. EvRun ctx c None) (dockerCommands h sn i ds))
   \<or> (\<exists>k e. k < length ds \<and> r = Some (wrapError env h e ''failed to perform docker step'')
      \<and> tr' = tr @ map (\<lambda>c. EvRun ctx c None) (take k (dockerCommands h sn i ds))
               @ [EvRun ctx (dockerCommands h sn i ds ! k) (Some e)])"
proof (induction ds arbitrary: i tr)
  case Nil
  then show ?case by (simp add: dockerCommands_def)
next
  case (Cons d ds)
  let ?c = "dockerStepCommand h sn i d"
  show ?case
  proof (cases "runner_Run env tr ctx ?c")
    case (Some e)
    with Cons.prems have "0 < length (d # ds) \<and> r = Some (wrapError env h e ''failed to perform docker step'')
      \<and> tr' = tr @ map (\<lambda>c. EvRun ctx c None) (take 0 (dockerCommands h sn i (d # ds)))
               @ [EvRun ctx (dockerCommands h sn i (d # ds) ! 0) (Some e)]"
      by (auto simp: dockerCommands_def Let_def)
    then show ?thesis by blast
  next
    case None
    with Cons.prems have "runDockerSteps env h ctx sn (Suc i) ds (tr @ [EvRun ctx ?c None]) = (r, tr')"
      by (simp add: Let_def)
    from Cons.IH [OF this] show ?thesis
    proof
      assume "r = None \<and> tr' = (tr @ [EvRun ctx ?c None])
         @ map (\<lambda>c. EvRun ctx c None) (dockerCommands h sn (Suc i) ds)"
      then show ?thesis by (simp add: dockerCommands_def)
    next
      assume "\<exists>k e. k < length ds \<and> r = Some (wrapError env h e ''failed to perform docker step'')
        \<and> tr' = (tr @ [EvRun ctx ?c None])
            @ map (\<lambda>c. EvRun ctx c None) (take k (dockerCommands h sn (Suc i) ds))
            @ [EvRun ctx (dockerCommands h sn (Suc i) ds ! k) (Some e)]"
      then obtain k e where k: "k < length ds" "r = Some (wrapError env h e ''failed to perform docker step'')"
        "tr' = (tr @ [EvRun ctx ?c None])
            @ map (\<lambda>c. EvRun ctx c None) (take k (dockerCommands h sn (Suc i) ds))
            @ [EvRun ctx (dockerCommands h sn (Suc i) ds ! k) (Some e)]"
        by blast
      then have "Suc k < length (d # ds) \<and> r = Some (wrapError env h e ''failed to perform docker step'')
        \<and> tr' = tr @ map (\<lambda>c. EvRun ctx c None) (take (Suc k) (dockerCommands h sn i (d # ds)))
               @ [EvRun ctx (dockerCommands h sn i (d # ds) ! Suc k) (Some e)]"
        by (simp add: dockerCommands_def)
      then show ?thesis by blast
    qed
  qed
qed

lemma runCliSteps_events:
  "runCliSteps env h ctx i cs tr = (r, tr') \<Longrightarrow>
   (r = None \<and> tr' = tr @ map (\<lambda>c. EvRun ctx c None) (cliCommands h i cs))
   \<or> (\<exists>k e. k < length cs \<and> r = Some (wrapError env h e ''failed to perform src-cli step'')
      \<and> tr' = tr @ map (\<lambda>c. EvRun ctx c None) (take k (cliCommands h i cs))
               @ [EvRun ctx (cliCommands h i cs ! k) (Some e)])"
proof (induction cs arbitrary: i tr)
  case Nil
  then show ?case by (simp add: cliCommands_def)
next
  case (Cons d ds)
  let ?c = "cliStepCommand h i d"
  show ?case
  proof (cases "runner_Run env tr ctx ?c")
    case (Some e)
    with Cons.prems have "0 < length (d # ds) \<and> r = Some (wrapError env h e ''failed to perform src-cli step'')
      \<and> tr' = tr @ map (\<lambda>c. EvRun ctx c None) (take 0 (cliCommands h i (d # ds)))
               @ [EvRun ctx (cliCommands h i (d # ds) ! 0) (Some e)]"
      by (auto simp: cliCommands_def Let_def)
    then show ?thesis by blast
  next
    case None
    with Cons.prems have "runCliSteps env h ctx (Suc i) ds (tr @ [EvRun ctx ?c None]) = (r, tr')"
      by (simp add: Let_def)
    from Cons.IH [OF this] show ?thesis
    proof
      assume "r = None \<and> tr' = (tr @ [EvRun ctx ?c None])
         @ map (\<lambda>c. EvRun ctx c None) (cliCommands h (Suc i) ds)"
      then show ?thesis by (simp add: cliCommands_def)
    next
      assume "\<exists>k e. k < length ds \<and> r = Some (wrapError env h e ''failed to perform src-cli step'')
        \<and> tr' = (tr @ [EvRun ctx ?c None])
            @ map (\<lambda>c. EvRun ctx c None) (take k (cliCommands h (Suc i) ds))
            @ [EvRun ctx (cliCommands h (Suc i) ds ! k) (Some e)]"
      then obtain k e where k: "k < length ds" "r = Some (wrapError env h e ''failed to perform src-cli step'')"
        "tr' = (tr @ [EvRun ctx ?c None])
            @ map (\<lambda>c. EvRun ctx c None) (take k (cliCommands h (Suc i) ds))
            @ [EvRun ctx (cliCommands h (Suc i) ds ! k) (Some e)]"
        by blast
      then have "Suc k < length (d # ds) \<and> r = Some (wrapError env h e ''failed to perform src-cli step'')
        \<and> tr' = tr @ map (\<lambda>c. EvRun ctx c None) (take (Suc k) (cliCommands h i (d # ds)))
               @ [EvRun ctx (cliCommands h i (d # ds) ! Suc k) (Some e)]"
        by (simp add: cliCommands_def)
      then show ?thesis by blast
    qed
  qed
qed

lemma length_dockerCommands [simp]: "length (dockerCommands h sn i ds) = length ds"
  by (simp add: dockerCommands_def)

lemma length_cliCommands [simp]: "length (cliCommands h i cs) = length cs"
  by (simp add: cliCommands_def)

lemma length_stepCommands: "length (stepCommands h job) = length (DockerSteps job) + length (CliSteps job)"
  by (simp add: stepCommands_def)

lemma runSteps_events:
  assumes "runSteps env h ctx job (scriptNamesOf job 0 (DockerSteps job)) tr = (r, tr')"
  shows "\<exists>evs. tr' = tr @ evs \<and> run_events env h ctx job r evs"
proof -
  let ?sn = "scriptNamesOf job 0 (DockerSteps job)"
  let ?dc = "dockerCommands h ?sn 0 (DockerSteps job)"
  let ?cc = "cliCommands h 0 (CliSteps job)"
  obtain rd trd where rd: "runDockerSteps env h ctx ?sn 0 (DockerSteps job) tr = (rd, trd)"
    by (cases "runDockerSteps env h ctx ?sn 0 (DockerSteps job) tr")
  from runDockerSteps_events [OF rd] show ?thesis
  proof
    assume a: "rd = None \<and> trd = tr @ map (\<lambda>c. EvRun ctx c None) ?dc"
    with assms rd have rc: "runCliSteps env h ctx 0 (CliSteps job) trd = (r, tr')"
      by (simp add: runSteps_def)
    from runCliSteps_events [OF rc] show ?thesis
    proof
      assume "r = None \<and> tr' = trd @ map (\<lambda>c. EvRun ctx c None) ?cc"
      with a have "tr' = tr @ map (\<lambda>c. EvRun ctx c None) (stepCommands h job)" "r = None"
        by (simp_all add: stepCommands_def)
      then show ?thesis by (auto simp: run_events_def)
    next
      assume "\<exists>k e. k < length (CliSteps job)
        \<and> r = Some (wrapError env h e ''failed to perform src-cli step'')
        \<and> tr' = trd @ map (\<lambda>c. EvRun ctx c None) (take k ?cc) @ [EvRun ctx (?cc ! k) (Some e)]"
      then obtain k e where k: "k < length (CliSteps job)"
        "r = Some (wrapError env h e ''failed to perform src-cli step'')"
        "tr' = trd @ map (\<lambda>c. EvRun ctx c None) (take k ?cc) @ [EvRun ctx (?cc ! k) (Some e)]"
        by blast
      let ?k = "length (DockerSteps job) + k"
      have "?k < length (stepCommands h job)" using k(1) by (simp add: length_stepCommands)
      moreover have "r = Some (wrapError env h e
          (if ?k < length (DockerSteps job) then ''failed to perform docker step''
           else ''failed to perform src-cli step''))"
        using k(2) by simp
      moreover have "tr' = tr @ (map (\<lambda>c. EvRun ctx c None) (take ?k (stepCommands h job))
          @ [EvRun ctx (stepCommands h job ! ?k) (Some e)])"
        using k(3) a by (simp add: stepCommands_def nth_append)
      ultimately show ?thesis unfolding run_events_def by blast
    qed
  next
    assume "\<exists>k e. k < length (DockerSteps job)
        \<and> rd = Some (wrapError env h e ''failed to perform docker step'')
        \<and> trd = tr @ map (\<lambda>c. EvRun ctx c None) (take k ?dc) @ [EvRun ctx (?dc ! k) (Some e)]"
    then obtain k e where k: "k < length (DockerSteps job)"
        "rd = Some (wrapError env h e ''failed to perform docker step'')"
        "trd = tr @ map (\<lambda>c. EvRun ctx c None) (take k ?dc) @ [EvRun ctx (?dc ! k) (Some e)]"
      by blast
    with assms rd have "r = rd" "tr' = trd" by (simp_all add: runSteps_def)
    have "k < length (stepCommands h job)" using k(1) by (simp add: length_stepCommands)
    moreover have "r = Some (wrapError env h e
          (if k < length (DockerSteps job) then ''failed to perform docker step''
           else ''failed to perform src-cli step''))"
      using k(1,2) \<open>r = rd\<close> by simp
    moreover have "tr' = tr @ (map (\<lambda>c. EvRun ctx c None) (take k (stepCommands h job))
          @ [EvRun ctx (stepCommands h job ! k) (Some e)])"
      using k(1,3) \<open>tr' = trd\<close> by (simp add: stepCommands_def nth_append)
    ultimately show ?thesis unfolding run_events_def by blast
  qed
qed

lemma withVM_cases:
  assumes "withVM env h ctx job (scriptNamesOf job 0 (DockerSteps job)) tr = (r, tr')"
  shows "\<exists>evs. tr' = tr @ evs \<and> (setup_failed env h ctx job r evs \<or> setup_ok env h ctx job r evs)"
proof (cases "runner_Setup env tr ctx (imageNames (DockerSteps job))")
  case (Some e)
  with assms have "r = Some (wrapError env h e ''failed to setup virtual machine'')"
    "tr' = tr @ [EvSetup ctx (imageNames (DockerSteps job)) (Some e)]"
    by (simp_all add: withVM_def Let_def)
  then show ?thesis by (simp add: setup_failed_def)
next
  case None
  let ?tr1 = "tr @ [EvSetup ctx (imageNames (DockerSteps job)) None]"
  obtain sr tr2 where rs: "runSteps env h ctx job (scriptNamesOf job 0 (DockerSteps job)) ?tr1 = (sr, tr2)"
    by (cases "runSteps env h ctx job (scriptNamesOf job 0 (DockerSteps job)) ?tr1")
  from runSteps_events [OF rs] obtain runs where
    runs: "tr2 = ?tr1 @ runs" "run_events env h ctx job sr runs" by blast
  let ?td = "runner_Teardown env tr2 Background"
  from assms None rs have
    "r = (case ?td of None \<Rightarrow> sr | Some te \<Rightarrow> Some (multierror_Append sr te))"
    "tr' = tr2 @ [EvTeardown Background ?td]"
    by (simp_all add: withVM_def Let_def split: option.splits)
  with runs have "tr' = tr @ (EvSetup ctx (imageNames (DockerSteps job)) None # runs
       @ [EvTeardown Background ?td])"
    "setup_ok env h ctx job r (EvSetup ctx (imageNames (DockerSteps job)) None # runs
       @ [EvTeardown Background ?td])"
    unfolding setup_ok_def by auto
  then show ?thesis by blast
qed

lemma provision_cases:
  assumes "provision env h ctx job wd tr = (r, tr')"
  shows "(\<exists>e. r = Some e \<and> tr' = tr)
    \<or> (\<exists>u e sw. uuid_NewRandom env tr = Inr u \<and> r = Some e
          \<and> script_fail_events env job wd e sw
          \<and> tr' = tr @ name_events h wd u @ sw @ [EvNameSetRemove (vmName h u)])
    \<or> (\<exists>u evs. uuid_NewRandom env tr = Inr u
          \<and> (setup_failed env h ctx job r evs \<or> setup_ok env h ctx job r evs)
          \<and> tr' = tr @ name_events h wd u @ script_events env job wd @ evs
                @ [EvNameSetRemove (vmName h u)])"
proof (cases "uuid_NewRandom env tr")
  case (Inl e)
  with assms show ?thesis by (auto simp: provision_def)
next
  case (Inr u)
  let ?tr2 = "tr @ name_events h wd u"
  obtain ws tr3 where ws: "writeScripts env job wd 0 (DockerSteps job) [] ?tr2 = (ws, tr3)"
    by (cases "writeScripts env job wd 0 (DockerSteps job) [] ?tr2")
  from writeScripts_events [OF ws] show ?thesis
  proof
    assume a: "ws = Inr ([] @ scriptNamesOf job 0 (DockerSteps job))
      \<and> tr3 = ?tr2 @ map (scriptWrite env job wd None) (enumerate 0 (DockerSteps job))"
    obtain tv where tv: "withVM env h ctx job (scriptNamesOf job 0 (DockerSteps job)) tr3 = (r, tv)"
      "tr' = tv @ [EvNameSetRemove (vmName h u)]"
      using assms Inr ws a
      by (cases "withVM env h ctx job (scriptNamesOf job 0 (DockerSteps job)) tr3")
        (simp add: provision_def Let_def name_events_def vmName_def)
    from withVM_cases [OF tv(1)] obtain evs where
      "tv = tr3 @ evs" "setup_failed env h ctx job r evs \<or> setup_ok env h ctx job r evs"
      by blast
    with a tv(2) Inr have "uuid_NewRandom env tr = Inr u
          \<and> (setup_failed env h ctx job r evs \<or> setup_ok env h ctx job r evs)
          \<and> tr' = tr @ name_events h wd u @ script_events env job wd @ evs
                @ [EvNameSetRemove (vmName h u)]"
      by (simp add: script_events_def)
    then show ?thesis by blast
  next
    assume "\<exists>k e. k < length (DockerSteps job) \<and> ws = Inl e
      \<and> tr3 = ?tr2 @ map (scriptWrite env job wd None) (take k (enumerate 0 (DockerSteps job)))
               @ [scriptWrite env job wd (Some e) (enumerate 0 (DockerSteps job) ! k)]"
    then obtain k e where k: "k < length (DockerSteps job)" "ws = Inl e"
      "tr3 = ?tr2 @ map (scriptWrite env job wd None) (take k (enumerate 0 (DockerSteps job)))
               @ [scriptWrite env job wd (Some e) (enumerate 0 (DockerSteps job) ! k)]"
      by blast
    let ?sw = "map (scriptWrite env job wd None) (take k (enumerate 0 (DockerSteps job)))
               @ [scriptWrite env job wd (Some e) (enumerate 0 (DockerSteps job) ! k)]"
    have "script_fail_events env job wd e ?sw"
      unfolding script_fail_events_def using k(1) by blast
    moreover from Inr ws k(2)
    have "provision env h ctx job wd tr = (Some e, tr3 @ [EvNameSetRemove (vmName h u)])"
      by (simp add: provision_def Let_def name_events_def vmName_def)
    with assms have "r = Some e" "tr' = tr3 @ [EvNameSetRemove (vmName h u)]" by simp_all
    with k(3) have "r = Some e"
      "tr' = tr @ name_events h wd u @ ?sw @ [EvNameSetRemove (vmName h u)]"
      by simp_all
    ultimately show ?thesis using Inr by blast
  qed
qed

lemma Handle_cases [consumes 1, case_names PrepareFailed Stopped ScriptFailed SetupReached]:
  assumes H: "Handle env h ctx0 job = (res, tr)"
  obtains
    (PrepareFailed) e fin where
      "tr = handle_pre env h ctx0 job (Inl e) @ fin"
      "res = Some (wrapError env h e ''failed to prepare workspace'')"
      "deferred_events res fin"
  | (Stopped) wd vr vmw e fin where
      "tr = handle_pre env h ctx0 job (Inr wd) @ vmw @ EvRemoveAll wd # fin"
      "writeVMFiles env wd (VirtualMachineFiles job) (handle_pre env h ctx0 job (Inr wd))
         = (vr, handle_pre env h ctx0 job (Inr wd) @ vmw)"
      "vm_events wd (VirtualMachineFiles job) vmw"
      "res = Some e"
      "deferred_events res fin"
  | (ScriptFailed) wd vmw u e sw fin where
      "tr = handle_pre env h ctx0 job (Inr wd) @ vmw @ name_events h wd u @ sw
              @ EvNameSetRemove (vmName h u) # EvRemoveAll wd # fin"
      "writeVMFiles env wd (VirtualMachineFiles job) (handle_pre env h ctx0 job (Inr wd))
         = (None, handle_pre env h ctx0 job (Inr wd) @ vmw)"
      "vm_events wd (VirtualMachineFiles job) vmw"
      "uuid_NewRandom env (handle_pre env h ctx0 job (Inr wd) @ vmw) = Inr u"
      "script_fail_events env job wd e sw"
      "res = Some e"
      "deferred_events res fin"
  | (SetupReached) wd vmw u evs fin where
      "tr = handle_pre env h ctx0 job (Inr wd) @ vmw @ name_events h wd u
              @ script_events env job wd @ evs
              @ EvNameSetRemove (vmName h u) # EvRemoveAll wd # fin"
      "writeVMFiles env wd (VirtualMachineFiles job) (handle_pre env h ctx0 job (Inr wd))
         = (None, handle_pre env h ctx0 job (Inr wd) @ vmw)"
      "vm_events wd (VirtualMachineFiles job) vmw"
      "uuid_NewRandom env (handle_pre env h ctx0 job (Inr wd) @ vmw) = Inr u"
      "setup_failed env h (jobContext env h ctx0) job res evs
         \<or> setup_ok env h (jobContext env h ctx0) job res evs"
      "deferred_events res fin"
proof -
  let ?ctx = "jobContext env h ctx0"
  let ?tr2 = "[EvNewLogger (ID job) (union (opt_RedactedValues (options h)) (RedactedValues job)),
      EvRunnerFactory []
        \<lparr>ExecutorName = [], cmd_FirecrackerOptions = \<lparr>Enabled = False\<rparr>, cmd_ResourceOptions = []\<rparr>]"
  let ?pw = "prepareWorkspace env ?tr2 ?ctx (RepositoryName job) (Commit job)"
  let ?fin = "\<lambda>r tr4. [EvFlush] @ (if honey_Enabled env (tr4 @ [EvFlush]) then [EvHoney r] else []) @ [EvCancel]"
  have fin: "deferred_events r (?fin r tr4)" for r tr4
    by (simp add: deferred_events_def)
  show thesis
  proof (cases ?pw)
    case (Inl e)
    let ?r = "Some (wrapError env h e ''failed to prepare workspace'')"
    let ?pre = "handle_pre env h ctx0 job (Inl e)"
    from Inl have "Handle env h ctx0 job = (?r, ?pre @ ?fin ?r ?pre)"
      by (simp add: Handle_def Let_def handle_pre_def jobContext_def)
    with H have "res = ?r" "tr = ?pre @ ?fin res ?pre" by auto
    with fin [of res ?pre] show thesis by (intro PrepareFailed [of e "?fin res ?pre"])
  next
    case (Inr wd)
    let ?pre = "handle_pre env h ctx0 job (Inr wd)"
    obtain r4 tr4 where iw: "inWorkspace env h ?ctx job wd ?pre = (r4, tr4)"
      by (cases "inWorkspace env h ?ctx job wd ?pre")
    with Inr have "Handle env h ctx0 job = (r4, tr4 @ ?fin r4 tr4)"
      by (simp add: Handle_def Let_def handle_pre_def jobContext_def)
    with H have r4: "r4 = res" and tr: "tr = tr4 @ ?fin res tr4" by auto
    note iw = iw [unfolded r4]
    define fin where "fin = ?fin res tr4"
    have fin': "deferred_events res fin" "tr = tr4 @ fin"
      using fin [of res tr4] tr by (simp_all add: fin_def)
    obtain vr trv where vf: "writeVMFiles env wd (VirtualMachineFiles job) ?pre = (vr, trv)"
      by (cases "writeVMFiles env wd (VirtualMachineFiles job) ?pre")
    from writeVMFiles_events [OF vf] obtain vmw where
      vmw: "trv = ?pre @ vmw" "vm_events wd (VirtualMachineFiles job) vmw"
      unfolding vm_events_def by blast
    show thesis
    proof (cases vr)
      case (Some e)
      with vf have "inWorkspace env h ?ctx job wd ?pre = (Some e, trv @ [EvRemoveAll wd])"
        by (simp add: inWorkspace_def)
      with iw have "res = Some e" "tr4 = trv @ [EvRemoveAll wd]" by auto
      with vmw fin' vf show thesis
        by (intro Stopped [of wd vmw fin vr e]) simp_all
    next
      case None
      obtain rp trp where pr: "provision env h ?ctx job wd trv = (rp, trp)"
        by (cases "provision env h ?ctx job wd trv")
      with vf None have "inWorkspace env h ?ctx job wd ?pre = (rp, trp @ [EvRemoveAll wd])"
        by (simp add: inWorkspace_def)
      with iw have rp: "rp = res" and tr4: "tr4 = trp @ [EvRemoveAll wd]" by auto
      note pr = pr [unfolded rp]
      from provision_cases [OF pr] consider
        (a) e where "res = Some e" "trp = trv"
      | (b) u e sw where "uuid_NewRandom env trv = Inr u" "res = Some e"
          "script_fail_events env job wd e sw"
          "trp = trv @ name_events h wd u @ sw @ [EvNameSetRemove (vmName h u)]"
      | (c) u evs where "uuid_NewRandom env trv = Inr u"
          "setup_failed env h ?ctx job res evs \<or> setup_ok env h ?ctx job res evs"
          "trp = trv @ name_events h wd u @ script_events env job wd @ evs
                @ [EvNameSetRemove (vmName h u)]"
        by blast
      then show thesis
      proof cases
        case a
        with vmw fin' vf tr4 show thesis
          by (intro Stopped [of wd vmw fin vr e]) simp_all
      next
        case b
        with vmw fin' vf tr4 None show thesis
          by (intro ScriptFailed [of wd vmw u sw fin e]) simp_all
      next
        case c
        with vmw fin' vf tr4 None show thesis
          by (intro SetupReached [of wd vmw u evs fin]) simp_all
      qed
    qed
  qed
qed

subsection \<open>PreDequeue\<close>



text \<open>
  C10. When Firecracker execution is enabled and the query for the running VMs fails,
  PreDequeue answers that no job may be dequeued and returns the error of the query,
  with no warning.
\<close>

theorem PreDequeue_query_error:
  "Enabled (FirecrackerOptions (options h)) \<Longrightarrow>
   ignite_CurrentlyRunningVMs env Background (VMPrefix (options h)) = Inl e \<Longrightarrow>
   PreDequeue env h = (False, Some e, [])"
  by (simp add: PreDequeue_def)

theorem PreDequeue_query_error_witness:
  "PreDequeue (sample_env (Inl (Errorf ''ignite: exit status 1'')) (\<lambda>c. None) None) sample_handler
     = (False, Some (Errorf ''ignite: exit status 1''), [])"
  using PreDequeue_query_error [of sample_handler
      "sample_env (Inl (Errorf ''ignite: exit status 1'')) (\<lambda>c. None) None"
      "Errorf ''ignite: exit status 1''"]
  by (simp add: sample_env_def sample_handler_def sample_options_def)

subsection \<open>Handle after a successful Setup\<close>

lemma kind_handle_pre:
  "ev \<in> set (handle_pre env h ctx0 job pw) \<Longrightarrow>
   kind ev = KNewLogger \<or> kind ev = KRunnerFactory \<or> kind ev = KPrepareWorkspace"
  by (auto simp: handle_pre_def)

lemma list_all2_memberD: "list_all2 P xs ys \<Longrightarrow> x \<in> set xs \<Longrightarrow> \<exists>y. P x y"
  by (induction rule: list_all2_induct) auto

lemma kind_vm_events: "vm_events wd fs evs \<Longrightarrow> ev \<in> set evs \<Longrightarrow> kind ev = KVMWrite"
  unfolding vm_events_def by (auto dest!: list_all2_memberD)

lemma kind_name_events:
  "ev \<in> set (name_events h wd u) \<Longrightarrow> kind ev = KNameSetAdd \<or> kind ev = KRunnerFactory"
  by (auto simp: name_events_def)

lemma kind_scriptWrite [simp]: "kind (scriptWrite env job wd r x) = KScriptWrite"
  by (cases x) (simp add: scriptWrite_def)

lemma kind_script_events: "ev \<in> set (script_events env job wd) \<Longrightarrow> kind ev = KScriptWrite"
  by (auto simp: script_events_def)

lemma kind_script_fail_events:
  "script_fail_events env job wd e sw \<Longrightarrow> ev \<in> set sw \<Longrightarrow> kind ev = KScriptWrite"
  by (auto simp: script_fail_events_def)

lemma kind_run_events: "run_events env h ctx job sr runs \<Longrightarrow> ev \<in> set runs \<Longrightarrow> kind ev = KRun"
  by (auto simp: run_events_def)

lemma kind_deferred_events:
  "deferred_events res fin \<Longrightarrow> ev \<in> set fin \<Longrightarrow>
   kind ev = KFlush \<or> kind ev = KHoney \<or> kind ev = KCancel"
  by (auto simp: deferred_events_def)

lemmas kind_parts = kind_handle_pre kind_vm_events kind_name_events kind_script_events
  kind_script_fail_events kind_run_events kind_deferred_events

lemma filter_kind_all: "\<forall>ev\<in>set evs. kind ev = k \<Longrightarrow> filter (\<lambda>ev. kind ev = k) evs = evs"
  by simp

lemma filter_kind_none: "\<forall>ev\<in>set evs. kind ev \<noteq> k \<Longrightarrow> filter (\<lambda>ev. kind ev = k) evs = []"
  by simp

lemma run_events_flatten:
  "run_events env h ctx job sr runs \<Longrightarrow>
   (case sr of None \<Rightarrow> [] | Some se \<Rightarrow> flatten_err se) = (case sr of None \<Rightarrow> [] | Some se \<Rightarrow> [se])"
  by (auto simp: run_events_def wrapError_def)

lemma Handle_setup_ok:
  assumes H: "Handle env h ctx0 job = (res, tr)" and S: "EvSetup c imgs None \<in> set tr"
  obtains wd vmw u sr runs td fin where
    "tr = handle_pre env h ctx0 job (Inr wd) @ vmw @ name_events h wd u
       @ script_events env job wd
       @ EvSetup (jobContext env h ctx0) (imageNames (DockerSteps job)) None # runs
       @ EvTeardown Background td # EvNameSetRemove (vmName h u) # EvRemoveAll wd # fin"
    "vm_events wd (VirtualMachineFiles job) vmw"
    "run_events env h (jobContext env h ctx0) job sr runs"
    "res = (case td of None \<Rightarrow> sr | Some te \<Rightarrow> Some (multierror_Append sr te))"
    "deferred_events res fin"
  using H
proof (cases rule: Handle_cases)
  case (PrepareFailed e fin)
  with S show ?thesis by (auto dest: kind_parts)
next
  case (Stopped wd vr vmw e fin)
  with S show ?thesis by (auto dest: kind_parts)
next
  case (ScriptFailed wd vmw u e sw fin)
  with S show ?thesis by (auto dest: kind_parts)
next
  case (SetupReached wd vmw u evs fin)
  let ?ctx = "jobContext env h ctx0"
  have "\<not> setup_failed env h ?ctx job res evs"
  proof
    assume "setup_failed env h ?ctx job res evs"
    with S SetupReached show False by (auto simp: setup_failed_def dest: kind_parts)
  qed
  with SetupReached(5) have "setup_ok env h ?ctx job res evs" by simp
  then obtain sr runs td where ok: "run_events env h ?ctx job sr runs"
    "res = (case td of None \<Rightarrow> sr | Some te \<Rightarrow> Some (multierror_Append sr te))"
    "evs = EvSetup ?ctx (imageNames (DockerSteps job)) None # runs @ [EvTeardown Background td]"
    unfolding setup_ok_def by blast
  show ?thesis
    using SetupReached(1,3,6) ok by (intro that [of wd vmw u runs td fin sr]) simp_all
qed

lemma filter_kind_setup_ok:
  assumes "vm_events wd fs vmw" "run_events env h ctx job sr runs" "deferred_events res fin"
  shows "filter (\<lambda>ev. kind ev = KRun)
           (handle_pre env h ctx0 job pw @ vmw @ name_events h wd u @ script_events env job wd
             @ EvSetup ctx imgs None # runs
             @ EvTeardown Background td # EvNameSetRemove n # EvRemoveAll wd # fin) = runs"
    and "filter (\<lambda>ev. kind ev = KTeardown)
           (handle_pre env h ctx0 job pw @ vmw @ name_events h wd u @ script_events env job wd
             @ EvSetup ctx imgs None # runs
             @ EvTeardown Background td # EvNameSetRemove n # EvRemoveAll wd # fin)
         = [EvTeardown Background td]"
proof -
  have "filter (\<lambda>ev. kind ev = KRun) (handle_pre env h ctx0 job pw) = []"
    "filter (\<lambda>ev. kind ev = KRun) vmw = []"
    "filter (\<lambda>ev. kind ev = KRun) (name_events h wd u) = []"
    "filter (\<lambda>ev. kind ev = KRun) (script_events env job wd) = []"
    "filter (\<lambda>ev. kind ev = KRun) runs = runs"
    "filter (\<lambda>ev. kind ev = KRun) fin = []"
    using assms by (auto simp: filter_empty_conv filter_id_conv dest: kind_parts)
  then show "filter (\<lambda>ev. kind ev = KRun)
           (handle_pre env h ctx0 job pw @ vmw @ name_events h wd u @ script_events env job wd
             @ EvSetup ctx imgs None # runs
             @ EvTeardown Background td # EvNameSetRemove n # EvRemoveAll wd # fin) = runs"
    by simp
  have "filter (\<lambda>ev. kind ev = KTeardown) (handle_pre env h ctx0 job pw) = []"
    "filter (\<lambda>ev. kind ev = KTeardown) vmw = []"
    "filter (\<lambda>ev. kind ev = KTeardown) (name_events h wd u) = []"
    "filter (\<lambda>ev. kind ev = KTeardown) (script_events env job wd) = []"
    "filter (\<lambda>ev. kind ev = KTeardown) runs = []"
    "filter (\<lambda>ev. kind ev = KTeardown) fin = []"
    using assms by (auto simp: filter_empty_conv dest: kind_parts)
  then show "filter (\<lambda>ev. kind ev = KTeardown)
           (handle_pre env h ctx0 job pw @ vmw @ name_events h wd u @ script_events env job wd
             @ EvSetup ctx imgs None # runs
             @ EvTeardown Background td # EvNameSetRemove n # EvRemoveAll wd # fin)
         = [EvTeardown Background td]"
    by simp
qed

text \<open>
  C1. When Setup has succeeded, Handle calls Teardown exactly once, after the last call
  of Run and before it returns, whether the steps succeeded, one of them failed or the
  deadline expired, and with \<^verbatim>\<open>context.Background()\<close>, not the context that carries the
  deadline of the job. When Teardown fails, Handle returns one aggregate error whose
  members are the error of the failed step (when there is one) followed by the error of
  Teardown.
\<close>

theorem Handle_teardown:
  assumes H: "Handle env h ctx0 job = (res, tr)" and S: "EvSetup c imgs None \<in> set tr"
  shows "\<exists>before after td sr.
     tr = before @ EvTeardown Background td # after
     \<and> (\<forall>ev\<in>set before. kind ev \<noteq> KTeardown)
     \<and> (\<forall>ev\<in>set after. kind ev \<noteq> KTeardown \<and> kind ev \<noteq> KRun)
     \<and> run_events env h (jobContext env h ctx0) job sr (filter (\<lambda>ev. kind ev = KRun) tr)
     \<and> res = (case td of
                None \<Rightarrow> sr
              | Some te \<Rightarrow> Some (Multi ((case sr of None \<Rightarrow> [] | Some se \<Rightarrow> [se]) @ flatten_err te)))"
proof -
  from H S obtain wd vmw u sr runs td fin where
    tr: "tr = handle_pre env h ctx0 job (Inr wd) @ vmw @ name_events h wd u
       @ script_events env job wd
       @ EvSetup (jobContext env h ctx0) (imageNames (DockerSteps job)) None # runs
       @ EvTeardown Background td # EvNameSetRemove (vmName h u) # EvRemoveAll wd # fin"
    and parts: "vm_events wd (VirtualMachineFiles job) vmw"
      "run_events env h (jobContext env h ctx0) job sr runs" "deferred_events res fin"
    and res: "res = (case td of None \<Rightarrow> sr | Some te \<Rightarrow> Some (multierror_Append sr te))"
    by (rule Handle_setup_ok)
  let ?ctx = "jobContext env h ctx0"
  let ?before = "handle_pre env h ctx0 job (Inr wd) @ vmw @ name_events h wd u
      @ script_events env job wd @ EvSetup ?ctx (imageNames (DockerSteps job)) None # runs"
  let ?after = "EvNameSetRemove (vmName h u) # EvRemoveAll wd # fin"
  have 1: "tr = ?before @ EvTeardown Background td # ?after"
    using tr by simp
  have 2: "\<forall>ev\<in>set ?before. kind ev \<noteq> KTeardown"
    using parts by (auto dest: kind_parts)
  have 3: "\<forall>ev\<in>set ?after. kind ev \<noteq> KTeardown \<and> kind ev \<noteq> KRun"
    using parts by (auto dest: kind_parts)
  have 4: "run_events env h ?ctx job sr (filter (\<lambda>ev. kind ev = KRun) tr)"
    using parts(2) filter_kind_setup_ok(1) [OF parts] by (simp add: tr)
  have 5: "res = (case td of
                None \<Rightarrow> sr
              | Some te \<Rightarrow> Some (Multi ((case sr of None \<Rightarrow> [] | Some se \<Rightarrow> [se]) @ flatten_err te)))"
    using res run_events_flatten [OF parts(2)]
    by (simp add: multierror_Append_def split: option.splits)
  from 1 2 3 4 5 show ?thesis by blast
qed

theorem Handle_teardown_witness:
  "EvSetup (WithDeadline Background 1000000000) [''alpine:3''] None
     \<in> set (snd (Handle deadline_env sample_handler Background sample_job))
   \<and> filter (\<lambda>ev. kind ev = KTeardown) (snd (Handle deadline_env sample_handler Background sample_job))
       = [EvTeardown Background (Some (Errorf ''boom''))]
   \<and> fst (Handle deadline_env sample_handler Background sample_job)
       = Some (Multi [Wrap (Errorf ''job exceeded maximum execution time of 1s'')
                        ''failed to perform docker step'', Errorf ''boom''])
   \<and> (\<exists>before after td sr.
         snd (Handle deadline_env sample_handler Background sample_job)
           = before @ EvTeardown Background td # after
         \<and> (\<forall>ev\<in>set before. kind ev \<noteq> KTeardown)
         \<and> (\<forall>ev\<in>set after. kind ev \<noteq> KTeardown \<and> kind ev \<noteq> KRun)
         \<and> run_events deadline_env sample_handler (jobContext deadline_env sample_handler Background)
              sample_job sr
              (filter (\<lambda>ev. kind ev = KRun) (snd (Handle deadline_env sample_handler Background sample_job)))
         \<and> fst (Handle deadline_env sample_handler Background sample_job)
             = (case td of
                  None \<Rightarrow> sr
                | Some te \<Rightarrow> Some (Multi ((case sr of None \<Rightarrow> [] | Some se \<Rightarrow> [se]) @ flatten_err te))))"
proof -
  have S: "EvSetup (WithDeadline Background 1000000000) [''alpine:3''] None
     \<in> set (snd (Handle deadline_env sample_handler Background sample_job))"
    by code_simp
  have T: "filter (\<lambda>ev. kind ev = KTeardown) (snd (Handle deadline_env sample_handler Background sample_job))
       = [EvTeardown Background (Some (Errorf ''boom''))]"
    by code_simp
  have R: "fst (Handle deadline_env sample_handler Background sample_job)
       = Some (Multi [Wrap (Errorf ''job exceeded maximum execution time of 1s'')
                        ''failed to perform docker step'', Errorf ''boom''])"
    by code_simp
  from Handle_teardown [OF surjective_pairing S] S T R show ?thesis by blast
qed

text \<open>
  C5, as amended. Once Setup has succeeded, the calls of \<^verbatim>\<open>runner.Run\<close> are, in this
  order, one for each docker step in the declared order and then one for each src-cli
  step in the declared order (the list \<open>stepCommands\<close>), each with the context of the job;
  after the first call that fails no further step is run; and Teardown is still called,
  once. When every step succeeds Handle returns no error, or the aggregate of Teardown's
  errors when Teardown fails. When step \<open>k\<close> fails Handle returns the error of that step
  wrapped with the message of its loop when Teardown succeeds, and the aggregate whose
  first member is that wrapped error, followed by the errors of Teardown, when Teardown
  fails too.
\<close>

theorem Handle_steps_in_order:
  assumes H: "Handle env h ctx0 job = (res, tr)" and S: "EvSetup c imgs None \<in> set tr"
  shows "\<exists>td. filter (\<lambda>ev. kind ev = KTeardown) tr = [EvTeardown Background td]
     \<and> ((filter (\<lambda>ev. kind ev = KRun) tr
            = map (\<lambda>cmd. EvRun (jobContext env h ctx0) cmd None) (stepCommands h job)
          \<and> res = (case td of None \<Rightarrow> None | Some te \<Rightarrow> Some (Multi (flatten_err te))))
        \<or> (\<exists>k e. k < length (stepCommands h job)
              \<and> filter (\<lambda>ev. kind ev = KRun) tr
                  = map (\<lambda>cmd. EvRun (jobContext env h ctx0) cmd None) (take k (stepCommands h job))
                    @ [EvRun (jobContext env h ctx0) (stepCommands h job ! k) (Some e)]
              \<and> res = (case td of
                    None \<Rightarrow> Some (wrapError env h e
                        (if k < length (DockerSteps job) then ''failed to perform docker step''
                         else ''failed to perform src-cli step''))
                  | Some te \<Rightarrow> Some (Multi (wrapError env h e
                        (if k < length (DockerSteps job) then ''failed to perform docker step''
                         else ''failed to perform src-cli step'') # flatten_err te)))))"
proof -
  let ?ctx = "jobContext env h ctx0"
  from H S obtain wd vmw u sr runs td fin where
    tr: "tr = handle_pre env h ctx0 job (Inr wd) @ vmw @ name_events h wd u
       @ script_events env job wd
       @ EvSetup ?ctx (imageNames (DockerSteps job)) None # runs
       @ EvTeardown Background td # EvNameSetRemove (vmName h u) # EvRemoveAll wd # fin"
    and parts: "vm_events wd (VirtualMachineFiles job) vmw"
      "run_events env h ?ctx job sr runs" "deferred_events res fin"
    and res: "res = (case td of None \<Rightarrow> sr | Some te \<Rightarrow> Some (multierror_Append sr te))"
    by (rule Handle_setup_ok)
  have runs: "filter (\<lambda>ev. kind ev = KRun) tr = runs"
    and td: "filter (\<lambda>ev. kind ev = KTeardown) tr = [EvTeardown Background td]"
    using filter_kind_setup_ok [OF parts] by (simp_all add: tr)
  from parts(2) consider
    (ok) "sr = None" "runs = map (\<lambda>c. EvRun ?ctx c None) (stepCommands h job)"
  | (failed) k e where "k < length (stepCommands h job)"
      "sr = Some (wrapError env h e
                  (if k < length (DockerSteps job) then ''failed to perform docker step''
                   else ''failed to perform src-cli step''))"
      "runs = map (\<lambda>c. EvRun ?ctx c None) (take k (stepCommands h job))
                  @ [EvRun ?ctx (stepCommands h job ! k) (Some e)]"
    unfolding run_events_def by blast
  then show ?thesis
  proof cases
    case ok
    have "res = (case td of None \<Rightarrow> None | Some te \<Rightarrow> Some (Multi (flatten_err te)))"
      unfolding res ok(1) by (simp add: multierror_Append_def split: option.splits)
    with td runs ok(2) show ?thesis by blast
  next
    case failed
    let ?w = "wrapError env h e
                  (if k < length (DockerSteps job) then ''failed to perform docker step''
                   else ''failed to perform src-cli step'')"
    have "res = (case td of None \<Rightarrow> Some ?w | Some te \<Rightarrow> Some (Multi (?w # flatten_err te)))"
      unfolding res failed(2)
      by (simp add: multierror_Append_def wrapError_def split: option.splits)
    with td runs failed(1,3) show ?thesis by blast
  qed
qed

theorem Handle_steps_in_order_witness:
  "EvSetup (WithDeadline Background 1000000000) [''alpine:3''] None
     \<in> set (snd (Handle deadline_only_env sample_handler Background sample_job))
   \<and> map Key (stepCommands sample_handler sample_job)
       = [''step.docker.0'', ''step.docker.1'', ''step.src.0'']
   \<and> filter (\<lambda>ev. kind ev = KRun)
        (snd (Handle deadline_only_env sample_handler Background sample_job))
       = [EvRun (WithDeadline Background 1000000000)
            (stepCommands sample_handler sample_job ! 0) None,
          EvRun (WithDeadline Background 1000000000)
            (stepCommands sample_handler sample_job ! 1) (Some DeadlineExceeded)]
   \<and> fst (Handle deadline_only_env sample_handler Background sample_job)
       = Some (wrapError deadline_only_env sample_handler DeadlineExceeded
                ''failed to perform docker step'')
   \<and> (\<exists>td. filter (\<lambda>ev. kind ev = KTeardown)
              (snd (Handle deadline_only_env sample_handler Background sample_job))
            = [EvTeardown Background td])"
proof -
  let ?H = "Handle deadline_only_env sample_handler Background sample_job"
  have S: "EvSetup (WithDeadline Background 1000000000) [''alpine:3''] None \<in> set (snd ?H)"
    by code_simp
  have K: "map Key (stepCommands sample_handler sample_job)
       = [''step.docker.0'', ''step.docker.1'', ''step.src.0'']"
    by code_simp
  have R: "filter (\<lambda>ev. kind ev = KRun) (snd ?H)
       = [EvRun (WithDeadline Background 1000000000)
            (stepCommands sample_handler sample_job ! 0) None,
          EvRun (WithDeadline Background 1000000000)
            (stepCommands sample_handler sample_job ! 1) (Some DeadlineExceeded)]"
    by code_simp
  have E: "fst ?H = Some (wrapError deadline_only_env sample_handler DeadlineExceeded
                ''failed to perform docker step'')"
    by code_simp
  from Handle_steps_in_order [OF surjective_pairing S]
  have T: "\<exists>td. filter (\<lambda>ev. kind ev = KTeardown) (snd ?H) = [EvTeardown Background td]"
    by (elim exE conjE) (rule exI)
  from S K R E T show ?thesis by (intro conjI)
qed

text \<open>The claim as it was stated fails where a step fails and Teardown fails afterwards:
  Handle returns the aggregate, not the wrapped error of the step.\<close>

theorem Handle_steps_in_order_counterexample:
  "EvSetup (WithDeadline Background 1000000000) [''alpine:3''] None
     \<in> set (snd (Handle deadline_env sample_handler Background sample_job))
   \<and> filter (\<lambda>ev. kind ev = KRun) (snd (Handle deadline_env sample_handler Background sample_job))
       = [EvRun (WithDeadline Background 1000000000)
            (stepCommands sample_handler sample_job ! 0) None,
          EvRun (WithDeadline Background 1000000000)
            (stepCommands sample_handler sample_job ! 1) (Some DeadlineExceeded)]
   \<and> fst (Handle deadline_env sample_handler Background sample_job)
       = Some (Multi [wrapError deadline_env sample_handler DeadlineExceeded
                        ''failed to perform docker step'', Errorf ''boom''])
   \<and> fst (Handle deadline_env sample_handler Background sample_job)
       \<noteq> Some (wrapError deadline_env sample_handler DeadlineExceeded
                ''failed to perform docker step'')"
  by code_simp

subsection \<open>The image names\<close>

lemma set_imageMap_aux: "set (fold (\<lambda>d m. List.insert (Image d) m) steps acc) = Image ` set steps \<union> set acc"
  by (induction steps arbitrary: acc) auto

lemma distinct_imageMap_aux: "distinct acc \<Longrightarrow> distinct (fold (\<lambda>d m. List.insert (Image d) m) steps acc)"
  by (induction steps arbitrary: acc) auto

lemma set_imageMap: "set (imageMap steps) = Image ` set steps"
  by (simp add: imageMap_def set_imageMap_aux)

lemma distinct_imageMap: "distinct (imageMap steps)"
  by (simp add: imageMap_def distinct_imageMap_aux)

lemma imageNames_sorted_list: "imageNames steps = sorted_list_of_set (Image ` set steps)"
proof -
  have "sorted_list_of_set (set (imageMap steps)) = sort (remdups (imageMap steps))"
    by (rule sorted_list_of_set_sort_remdups)
  then show ?thesis
    by (simp add: imageNames_def set_imageMap distinct_imageMap distinct_remdups_id)
qed

lemma imageNames_any_order: "mset keys = mset (imageMap steps) \<Longrightarrow> sort keys = imageNames steps"
  unfolding imageNames_def by (rule properties_for_sort) simp_all

lemma Handle_setup_events:
  assumes H: "Handle env h ctx0 job = (res, tr)"
  shows "filter (\<lambda>ev. kind ev = KSetup) tr = []
    \<or> (\<exists>r. filter (\<lambda>ev. kind ev = KSetup) tr
          = [EvSetup (jobContext env h ctx0) (imageNames (DockerSteps job)) r])"
  using H
proof (cases rule: Handle_cases)
  case (PrepareFailed e fin)
  then show ?thesis by (auto simp: filter_empty_conv dest: kind_parts)
next
  case (Stopped wd vr vmw e fin)
  then show ?thesis by (auto simp: filter_empty_conv dest: kind_parts)
next
  case (ScriptFailed wd vmw u e sw fin)
  then show ?thesis by (auto simp: filter_empty_conv dest: kind_parts)
next
  case (SetupReached wd vmw u evs fin)
  have nil: "filter (\<lambda>ev. kind ev = KSetup) (handle_pre env h ctx0 job (Inr wd)) = []"
    "filter (\<lambda>ev. kind ev = KSetup) vmw = []"
    "filter (\<lambda>ev. kind ev = KSetup) (name_events h wd u) = []"
    "filter (\<lambda>ev. kind ev = KSetup) (script_events env job wd) = []"
    "filter (\<lambda>ev. kind ev = KSetup) fin = []"
    using SetupReached by (auto simp: filter_empty_conv dest: kind_parts)
  from SetupReached(5) have "\<exists>r. filter (\<lambda>ev. kind ev = KSetup) evs
       = [EvSetup (jobContext env h ctx0) (imageNames (DockerSteps job)) r]"
  proof
    assume "setup_failed env h (jobContext env h ctx0) job res evs"
    then show ?thesis by (auto simp: setup_failed_def)
  next
    assume "setup_ok env h (jobContext env h ctx0) job res evs"
    then obtain sr runs td where "run_events env h (jobContext env h ctx0) job sr runs"
      "evs = EvSetup (jobContext env h ctx0) (imageNames (DockerSteps job)) None # runs
          @ [EvTeardown Background td]"
      unfolding setup_ok_def by blast
    moreover from this have "filter (\<lambda>ev. kind ev = KSetup) runs = []"
      by (auto simp: filter_empty_conv dest: kind_parts)
    ultimately show ?thesis by simp
  qed
  with nil SetupReached(1) show ?thesis by auto
qed

text \<open>
  C6. The image names that Handle passes to Setup are the distinct images of the docker
  steps of the job, each once, in ascending order of their bytes: the sorted list of the
  set of the images. The list depends on that set alone, not on the order of the steps nor
  on how often a step names an image (nor on the order in which the keys of the map are
  visited, \<open>imageNames_any_order\<close>). Handle calls Setup at most once.
\<close>

theorem Handle_setup_images:
  assumes H: "Handle env h ctx0 job = (res, tr)" and S: "EvSetup c imgs r \<in> set tr"
  shows "imgs = sorted_list_of_set (Image ` set (DockerSteps job))
     \<and> sorted imgs \<and> distinct imgs \<and> set imgs = Image ` set (DockerSteps job)
     \<and> filter (\<lambda>ev. kind ev = KSetup) tr = [EvSetup c imgs r]"
proof -
  from S have m: "EvSetup c imgs r \<in> set (filter (\<lambda>ev. kind ev = KSetup) tr)" by simp
  from Handle_setup_events [OF H]
  have "filter (\<lambda>ev. kind ev = KSetup) tr = [EvSetup c imgs r]
    \<and> imgs = imageNames (DockerSteps job)"
  proof
    assume "filter (\<lambda>ev. kind ev = KSetup) tr = []"
    with m show ?thesis by simp
  next
    assume "\<exists>r. filter (\<lambda>ev. kind ev = KSetup) tr
          = [EvSetup (jobContext env h ctx0) (imageNames (DockerSteps job)) r]"
    then obtain r' where "filter (\<lambda>ev. kind ev = KSetup) tr
          = [EvSetup (jobContext env h ctx0) (imageNames (DockerSteps job)) r']" by blast
    with m show ?thesis by simp
  qed
  then show ?thesis
    by (simp add: imageNames_sorted_list)
qed

theorem Handle_setup_images_witness:
  "EvSetup (WithDeadline Background 1000000000) [''alpine:3'', ''node:16''] None
     \<in> set (snd (Handle ok_env sample_handler Background images_job))
   \<and> map Image (DockerSteps images_job) = [''node:16'', ''alpine:3'', ''node:16'']
   \<and> sorted_list_of_set (Image ` set (DockerSteps images_job)) = [''alpine:3'', ''node:16'']
   \<and> filter (\<lambda>ev. kind ev = KSetup) (snd (Handle ok_env sample_handler Background images_job))
       = [EvSetup (WithDeadline Background 1000000000) [''alpine:3'', ''node:16''] None]"
proof -
  have S: "EvSetup (WithDeadline Background 1000000000) [''alpine:3'', ''node:16''] None
     \<in> set (snd (Handle ok_env sample_handler Background images_job))"
    by code_simp
  have I: "map Image (DockerSteps images_job) = [''node:16'', ''alpine:3'', ''node:16'']"
    by code_simp
  from Handle_setup_images [OF surjective_pairing S] S I show ?thesis by simp
qed

subsection \<open>The name set\<close>




lemma kind_setup_failed:
  "setup_failed env h ctx job r evs \<Longrightarrow> ev \<in> set evs \<Longrightarrow> kind ev = KSetup"
  by (auto simp: setup_failed_def)

lemma kind_setup_ok:
  "setup_ok env h ctx job r evs \<Longrightarrow> ev \<in> set evs \<Longrightarrow>
   kind ev = KSetup \<or> kind ev = KRun \<or> kind ev = KTeardown"
  by (auto simp: setup_ok_def dest: kind_parts)

lemmas kind_setup_events = kind_setup_failed kind_setup_ok



subsection \<open>The scripts\<close>

lemma strings_Join_sep:
  "cs \<noteq> [] \<Longrightarrow> strings_Join cs sep @ sep = concat (map (\<lambda>c. c @ sep) cs)"
  by (induction cs sep rule: strings_Join.induct) simp_all

lemma buildScript_content:
  "buildScript d = [CHR 0x0A] @ ''set -x'' @ [CHR 0x0A, CHR 0x0A, CHR 0x0A]
     @ concat (map (\<lambda>cmd. cmd @ [CHR 0x0A]) (Commands d))"
proof (cases "Commands d")
  case Nil
  then show ?thesis by (simp add: buildScript_def scriptPreamble_def)
next
  case (Cons c cs)
  then have "strings_Join (c # cs) [CHR 0x0A] @ [CHR 0x0A]
      = concat (map (\<lambda>cmd. cmd @ [CHR 0x0A]) (Commands d))"
    using strings_Join_sep [of "c # cs" "[CHR 0x0A]"] by simp
  with Cons show ?thesis by (simp add: buildScript_def scriptPreamble_def)
qed

lemma digit_inj: "a < 10 \<Longrightarrow> b < 10 \<Longrightarrow> digit a = digit b \<Longrightarrow> a = b"
  unfolding digit_def
  by (subst (asm) nth_eq_iff_index_eq) simp_all

lemma digit_in: "a < 10 \<Longrightarrow> digit a \<in> set ''0123456789''"
  unfolding digit_def by (rule nth_mem) simp

lemma fmt_nat_nonempty: "fmt_nat n \<noteq> []"
  by (subst fmt_nat.simps) simp

lemma fmt_nat_digits: "set (fmt_nat n) \<subseteq> set ''0123456789''"
proof (induction n rule: fmt_nat.induct)
  case (1 n)
  show ?case
  proof (cases "n < 10")
    case True
    then show ?thesis using digit_in [of n] by (subst fmt_nat.simps) simp
  next
    case False
    with 1 have "set (fmt_nat (n div 10)) \<subseteq> set ''0123456789''" by simp
    moreover have "digit (n mod 10) \<in> set ''0123456789''" by (rule digit_in) simp
    ultimately show ?thesis using False by (subst fmt_nat.simps) simp
  qed
qed

lemma fmt_nat_inj: "fmt_nat n = fmt_nat m \<Longrightarrow> n = m"
proof (induction n arbitrary: m rule: fmt_nat.induct)
  case (1 n)
  show ?case
  proof (cases "n < 10")
    case n: True
    show ?thesis
    proof (cases "m < 10")
      case True
      with n "1.prems" show ?thesis
        by (simp add: fmt_nat.simps [of n] fmt_nat.simps [of m] digit_inj)
    next
      case False
      with n "1.prems" fmt_nat_nonempty [of "m div 10"] show ?thesis
        by (simp add: fmt_nat.simps [of n] fmt_nat.simps [of m])
    qed
  next
    case n: False
    show ?thesis
    proof (cases "m < 10")
      case True
      with n "1.prems" fmt_nat_nonempty [of "n div 10"] show ?thesis
        by (simp add: fmt_nat.simps [of n] fmt_nat.simps [of m])
    next
      case False
      with n "1.prems" have eq: "fmt_nat (n div 10) = fmt_nat (m div 10)"
        "digit (n mod 10) = digit (m mod 10)"
        by (simp_all add: fmt_nat.simps [of n] fmt_nat.simps [of m])
      from "1.IH" [OF n eq(1)] have "n div 10 = m div 10" .
      moreover from eq(2) have "n mod 10 = m mod 10" by (intro digit_inj) simp_all
      ultimately show ?thesis by (metis div_mult_mod_eq)
    qed
  qed
qed

lemma fmt_nat_char:
  assumes "c \<in> set (fmt_nat n)"
  shows "c \<noteq> CHR ''.'' \<and> c \<noteq> CHR ''_'' \<and> c \<noteq> CHR ''-''"
proof -
  from assms fmt_nat_digits [of n] have "c \<in> set ''0123456789''" by (rule subsetD [rotated])
  then show ?thesis by auto
qed

lemma fmt_d_char:
  assumes "c \<in> set (fmt_d x)"
  shows "c \<noteq> CHR ''.''"
proof (cases "x < 0")
  case True
  with assms have "c = CHR ''-'' \<or> c \<in> set (fmt_nat (nat (- x)))" by (simp add: fmt_d_def)
  then show ?thesis using fmt_nat_char by auto
next
  case False
  with assms have "c \<in> set (fmt_nat (nat x))" by (simp add: fmt_d_def)
  then show ?thesis using fmt_nat_char by auto
qed

lemma fmt_d_inj: "fmt_d x = fmt_d y \<Longrightarrow> x = y"
proof -
  assume eq: "fmt_d x = fmt_d y"
  have no_minus: "hd (fmt_nat n) \<noteq> CHR ''-''" for n
    using fmt_nat_char [of "hd (fmt_nat n)" n] fmt_nat_nonempty [of n] by simp
  show ?thesis
  proof (cases "x < 0")
    case x: True
    show ?thesis
    proof (cases "y < 0")
      case True
      with x eq have "fmt_nat (nat (- x)) = fmt_nat (nat (- y))" by (simp add: fmt_d_def)
      then have "nat (- x) = nat (- y)" by (rule fmt_nat_inj)
      with x True show ?thesis by simp
    next
      case False
      with x eq have "CHR ''-'' # fmt_nat (nat (- x)) = fmt_nat (nat y)" by (simp add: fmt_d_def)
      then have "hd (fmt_nat (nat y)) = CHR ''-''" by (metis list.sel(1))
      with no_minus show ?thesis by blast
    qed
  next
    case x: False
    show ?thesis
    proof (cases "y < 0")
      case True
      with x eq have "fmt_nat (nat x) = CHR ''-'' # fmt_nat (nat (- y))" by (simp add: fmt_d_def)
      then have "hd (fmt_nat (nat x)) = CHR ''-''" by simp
      with no_minus show ?thesis by blast
    next
      case False
      with x eq have "fmt_nat (nat x) = fmt_nat (nat y)" by (simp add: fmt_d_def)
      then have "nat x = nat y" by (rule fmt_nat_inj)
      with x False show ?thesis by simp
    qed
  qed
qed

lemma append_sep_unique:
  "c \<notin> set xs \<Longrightarrow> c \<notin> set xs' \<Longrightarrow> xs @ c # ys = xs' @ c # ys' \<Longrightarrow> xs = xs' \<and> ys = ys'"
proof (induction xs arbitrary: xs')
  case Nil
  then show ?case by (cases xs') auto
next
  case (Cons x xs)
  then show ?case by (cases xs') auto
qed

lemma scriptName_inj:
  assumes "scriptNameFromJobStep job i = scriptNameFromJobStep job' i'"
  shows "ID job = ID job' \<and> i = i'"
proof -
  let ?rest = "\<lambda>j. replace_slashes (RepositoryName j) @ ''@'' @ Commit j @ ''.sh''"
  have dot: "CHR ''.'' \<notin> set (fmt_d x)" for x using fmt_d_char [of "CHR ''.''" x] by blast
  have us: "CHR ''_'' \<notin> set (fmt_nat n)" for n using fmt_nat_char [of "CHR ''_''" n] by blast
  from assms have "fmt_d (ID job) @ CHR ''.'' # (fmt_nat i @ CHR ''_'' # ?rest job)
      = fmt_d (ID job') @ CHR ''.'' # (fmt_nat i' @ CHR ''_'' # ?rest job')"
    by (simp add: scriptNameFromJobStep_def)
  from append_sep_unique [OF dot dot this]
  have a: "fmt_d (ID job) = fmt_d (ID job')"
    and b: "fmt_nat i @ CHR ''_'' # ?rest job = fmt_nat i' @ CHR ''_'' # ?rest job'"
    by simp_all
  from append_sep_unique [OF us us b] have "fmt_nat i = fmt_nat i'" by simp
  with a show ?thesis by (simp add: fmt_d_inj fmt_nat_inj)
qed


lemma script_events_explicit:
  "script_events env job wd =
     map (\<lambda>(i, d). EvWriteFile Script
            (filepath_Join [wd, ScriptsPath env,
               fmt_d (ID job) @ ''.'' @ fmt_nat i @ ''_'' @ replace_slashes (RepositoryName job)
                 @ ''@'' @ Commit job @ ''.sh''])
            ([CHR 0x0A] @ ''set -x'' @ [CHR 0x0A, CHR 0x0A, CHR 0x0A]
               @ concat (map (\<lambda>cmd. cmd @ [CHR 0x0A]) (Commands d))) None)
       (enumerate 0 (DockerSteps job))"
  unfolding script_events_def scriptWrite_def scriptNameFromJobStep_def buildScript_content
  by (rule refl)

lemma stepCommands_ScriptPath:
  assumes "i < length (DockerSteps job)"
  shows "ScriptPath (stepCommands h job ! i) = scriptNameFromJobStep job i"
  using assms
  by (simp add: stepCommands_def nth_append dockerCommands_def scriptNamesOf_def
      nth_enumerate_eq dockerStepCommand_def)

text \<open>
  C8. In a run that reaches Setup, the script files that Handle has written are, in the
  order of the docker steps, one for each step: the file of step \<open>i\<close> is in the scripts
  directory of the working directory, its name is the job ID, a dot, \<open>i\<close>, an underscore,
  the repository name with every slash replaced by an underscore, an at sign, the commit
  and \<^verbatim>\<open>.sh\<close>, and its content is the preamble (a line break, \<^verbatim>\<open>set -x\<close>, three line
  breaks) followed by each command of the step and a line break. Two script names are
  different whenever the job IDs or the step indices are.
\<close>

theorem Handle_scripts:
  assumes H: "Handle env h ctx0 job = (res, tr)" and S: "EvSetup c imgs r \<in> set tr"
  shows "(\<exists>wd. EvPrepareWorkspace (jobContext env h ctx0) (RepositoryName job) (Commit job) (Inr wd)
              \<in> set tr
          \<and> filter (\<lambda>ev. kind ev = KScriptWrite) tr =
              map (\<lambda>(i, d). EvWriteFile Script
                    (filepath_Join [wd, ScriptsPath env,
                       fmt_d (ID job) @ ''.'' @ fmt_nat i @ ''_''
                         @ replace_slashes (RepositoryName job) @ ''@'' @ Commit job @ ''.sh''])
                    ([CHR 0x0A] @ ''set -x'' @ [CHR 0x0A, CHR 0x0A, CHR 0x0A]
                       @ concat (map (\<lambda>cmd. cmd @ [CHR 0x0A]) (Commands d))) None)
                (enumerate 0 (DockerSteps job)))
     \<and> (\<forall>job' i i'. (ID job, i) \<noteq> (ID job', i') \<longrightarrow>
           scriptNameFromJobStep job i \<noteq> scriptNameFromJobStep job' i')"
proof -
  have inj: "\<forall>job' i i'. (ID job, i) \<noteq> (ID job', i') \<longrightarrow>
           scriptNameFromJobStep job i \<noteq> scriptNameFromJobStep job' i'"
    using scriptName_inj by blast
  from H have "\<exists>wd. EvPrepareWorkspace (jobContext env h ctx0) (RepositoryName job) (Commit job) (Inr wd)
              \<in> set tr
          \<and> filter (\<lambda>ev. kind ev = KScriptWrite) tr = script_events env job wd"
  proof (cases rule: Handle_cases)
    case (PrepareFailed e fin)
    with S show ?thesis by (auto dest: kind_parts)
  next
    case (Stopped wd vr vmw e fin)
    with S show ?thesis by (auto dest: kind_parts)
  next
    case (ScriptFailed wd vmw u e sw fin)
    with S show ?thesis by (auto dest: kind_parts)
  next
    case (SetupReached wd vmw u evs fin)
    have "filter (\<lambda>ev. kind ev = KScriptWrite) (handle_pre env h ctx0 job (Inr wd)) = []"
      "filter (\<lambda>ev. kind ev = KScriptWrite) vmw = []"
      "filter (\<lambda>ev. kind ev = KScriptWrite) (name_events h wd u) = []"
      "filter (\<lambda>ev. kind ev = KScriptWrite) (script_events env job wd) = script_events env job wd"
      "filter (\<lambda>ev. kind ev = KScriptWrite) evs = []"
      "filter (\<lambda>ev. kind ev = KScriptWrite) fin = []"
      using SetupReached
      by (auto simp: filter_empty_conv filter_id_conv dest: kind_parts kind_setup_events)
    then have "filter (\<lambda>ev. kind ev = KScriptWrite) tr = script_events env job wd"
      by (simp add: SetupReached(1))
    moreover have "EvPrepareWorkspace (jobContext env h ctx0) (RepositoryName job) (Commit job) (Inr wd)
        \<in> set tr"
      by (simp add: SetupReached(1) handle_pre_def)
    ultimately show ?thesis by blast
  qed
  with inj show ?thesis unfolding script_events_explicit by blast
qed

theorem Handle_scripts_witness:
  "EvSetup (WithDeadline Background 1000000000) [''alpine:3''] None
     \<in> set (snd (Handle ok_env sample_handler Background sample_job))
   \<and> filter (\<lambda>ev. kind ev = KScriptWrite) (snd (Handle ok_env sample_handler Background sample_job))
       = [EvWriteFile Script
            ''/tmp/work/.sourcegraph-executor/42.0_github.com_sourcegraph_sourcegraph@deadbeef.sh''
            ([CHR 0x0A] @ ''set -x'' @ [CHR 0x0A, CHR 0x0A, CHR 0x0A]
               @ ''echo one'' @ [CHR 0x0A] @ ''echo two'' @ [CHR 0x0A]) None,
          EvWriteFile Script
            ''/tmp/work/.sourcegraph-executor/42.1_github.com_sourcegraph_sourcegraph@deadbeef.sh''
            ([CHR 0x0A] @ ''set -x'' @ [CHR 0x0A, CHR 0x0A, CHR 0x0A] @ ''ls'' @ [CHR 0x0A]) None]
   \<and> scriptNameFromJobStep sample_job 0 \<noteq> scriptNameFromJobStep sample_job 1"
proof -
  have S: "EvSetup (WithDeadline Background 1000000000) [''alpine:3''] None
     \<in> set (snd (Handle ok_env sample_handler Background sample_job))"
    by code_simp
  have F: "filter (\<lambda>ev. kind ev = KScriptWrite) (snd (Handle ok_env sample_handler Background sample_job))
       = [EvWriteFile Script
            ''/tmp/work/.sourcegraph-executor/42.0_github.com_sourcegraph_sourcegraph@deadbeef.sh''
            ([CHR 0x0A] @ ''set -x'' @ [CHR 0x0A, CHR 0x0A, CHR 0x0A]
               @ ''echo one'' @ [CHR 0x0A] @ ''echo two'' @ [CHR 0x0A]) None,
          EvWriteFile Script
            ''/tmp/work/.sourcegraph-executor/42.1_github.com_sourcegraph_sourcegraph@deadbeef.sh''
            ([CHR 0x0A] @ ''set -x'' @ [CHR 0x0A, CHR 0x0A, CHR 0x0A] @ ''ls'' @ [CHR 0x0A]) None]"
    by code_simp
  from Handle_scripts [OF surjective_pairing S]
  have "\<forall>job' i i'. (ID sample_job, i) \<noteq> (ID job', i') \<longrightarrow>
      scriptNameFromJobStep sample_job i \<noteq> scriptNameFromJobStep job' i'"
    by (rule conjunct2)
  from this [rule_format, of 0 sample_job 1]
  have "scriptNameFromJobStep sample_job 0 \<noteq> scriptNameFromJobStep sample_job 1" by simp
  with S F show ?thesis by blast
qed

subsection \<open>The redacted values of the logger\<close>

lemma map_of_fold_update:
  "map_of (fold (\<lambda>(k, v) c. AList.update k v c) xs c) = map_of c ++ map_of (rev xs)"
proof (induction xs arbitrary: c)
  case Nil
  then show ?case by simp
next
  case (Cons x xs)
  obtain k v where x: "x = (k, v)" by (cases x)
  have "map_of (fold (\<lambda>(k, v) c. AList.update k v c) (x # xs) c)
      = map_of (AList.update k v c) ++ map_of (rev xs)"
    using Cons.IH [of "AList.update k v c"] x by simp
  also have "\<dots> = map_of c ++ map_of (rev (x # xs))"
    by (rule ext) (simp add: x update_conv' map_add_def split: option.splits)
  finally show ?case .
qed

lemma distinct_fold_update:
  "distinct (map fst c) \<Longrightarrow> distinct (map fst (fold (\<lambda>(k, v) c. AList.update k v c) xs c))"
  by (induction xs arbitrary: c) (auto simp: distinct_update)

lemma distinct_union: "distinct (map fst (union a b))"
  by (simp add: union_def distinct_fold_update)

lemma map_of_union: "map_of (union a b) = map_of (rev a) ++ map_of (rev b)"
  by (simp add: union_def map_of_fold_update)

lemma map_of_rev_distinct:
  assumes "distinct (map fst xs)"
  shows "map_of (rev xs) = map_of xs"
proof -
  from assms have "distinct (map fst (rev xs))" by (simp add: rev_map [symmetric])
  with assms show ?thesis by (simp add: map_of_inject_set)
qed

lemma set_union:
  assumes "distinct (map fst a)" "distinct (map fst b)"
  shows "set (union a b) = set b \<union> {(k, v) \<in> set a. k \<notin> fst ` set b}"
proof (rule set_eqI)
  fix x :: "string \<times> string"
  obtain k v where x: "x = (k, v)" by (cases x)
  have "(k, v) \<in> set (union a b) \<longleftrightarrow> map_of (union a b) k = Some v"
    using distinct_union by simp
  also have "\<dots> \<longleftrightarrow> (map_of a ++ map_of b) k = Some v"
    by (simp add: map_of_union map_of_rev_distinct assms)
  also have "\<dots> \<longleftrightarrow> (k, v) \<in> set b \<or> (k \<notin> fst ` set b \<and> (k, v) \<in> set a)"
    using assms by (auto simp: map_add_Some_iff map_of_eq_None_iff)
  finally show "x \<in> set (union a b) \<longleftrightarrow> x \<in> set b \<union> {(k, v) \<in> set a. k \<notin> fst ` set b}"
    using x by auto
qed

lemma handle_pre_logger:
  "\<exists>rest. handle_pre env h ctx0 job pw
      = EvNewLogger (ID job) (union (opt_RedactedValues (options h)) (RedactedValues job)) # rest
    \<and> (\<forall>ev\<in>set rest. kind ev \<noteq> KNewLogger)"
  by (simp add: handle_pre_def)

lemma Handle_logger_first:
  assumes H: "Handle env h ctx0 job = (res, tr)"
  shows "\<exists>rest. tr = EvNewLogger (ID job)
             (union (opt_RedactedValues (options h)) (RedactedValues job)) # rest
     \<and> (\<forall>ev\<in>set rest. kind ev \<noteq> KNewLogger)"
proof -
  have *: "\<exists>rest. handle_pre env h ctx0 job pw @ more
        = EvNewLogger (ID job) (union (opt_RedactedValues (options h)) (RedactedValues job)) # rest
      \<and> (\<forall>ev\<in>set rest. kind ev \<noteq> KNewLogger)"
    if "\<forall>ev\<in>set more. kind ev \<noteq> KNewLogger" for pw more
  proof -
    from handle_pre_logger [of env h ctx0 job pw] obtain r0 where
      r0: "handle_pre env h ctx0 job pw
        = EvNewLogger (ID job) (union (opt_RedactedValues (options h)) (RedactedValues job)) # r0"
      "\<forall>ev\<in>set r0. kind ev \<noteq> KNewLogger" by blast
    with that have "handle_pre env h ctx0 job pw @ more
        = EvNewLogger (ID job) (union (opt_RedactedValues (options h)) (RedactedValues job)) # (r0 @ more)
      \<and> (\<forall>ev\<in>set (r0 @ more). kind ev \<noteq> KNewLogger)"
      by auto
    then show ?thesis by (rule exI)
  qed
  from H show ?thesis
  proof (cases rule: Handle_cases)
    case (PrepareFailed e fin)
    have "\<forall>ev\<in>set fin. kind ev \<noteq> KNewLogger"
      using PrepareFailed(3) by (auto dest: kind_deferred_events)
    from * [OF this] show ?thesis unfolding PrepareFailed(1) .
  next
    case (Stopped wd vr vmw e fin)
    have "\<forall>ev\<in>set (vmw @ EvRemoveAll wd # fin). kind ev \<noteq> KNewLogger"
      using Stopped(3,5) by (auto dest: kind_deferred_events kind_vm_events)
    from * [OF this] show ?thesis unfolding Stopped(1) .
  next
    case (ScriptFailed wd vmw u e sw fin)
    have "\<forall>ev\<in>set (vmw @ name_events h wd u @ sw
              @ EvNameSetRemove (vmName h u) # EvRemoveAll wd # fin). kind ev \<noteq> KNewLogger"
      using ScriptFailed(3,5,7)
      by (auto dest: kind_deferred_events kind_vm_events kind_name_events kind_script_fail_events)
    from * [OF this] show ?thesis unfolding ScriptFailed(1) .
  next
    case (SetupReached wd vmw u evs fin)
    have "\<forall>ev\<in>set (vmw @ name_events h wd u @ script_events env job wd @ evs
              @ EvNameSetRemove (vmName h u) # EvRemoveAll wd # fin). kind ev \<noteq> KNewLogger"
      using SetupReached(3,5,6)
      by (auto dest: kind_deferred_events kind_vm_events kind_name_events kind_script_events
          kind_setup_failed kind_setup_ok)
    from * [OF this] show ?thesis unfolding SetupReached(1) .
  qed
qed

lemma keys_union: "fst ` set (union a b) = fst ` set a \<union> fst ` set b"
proof -
  have "fst ` set (union a b) = dom (map_of (union a b))"
    by (simp add: dom_map_of_conv_image_fst)
  also have "\<dots> = dom (map_of (rev a)) \<union> dom (map_of (rev b))"
    by (simp add: map_of_union Un_commute)
  also have "\<dots> = fst ` set a \<union> fst ` set b"
    by (simp add: dom_map_of_conv_image_fst)
  finally show ?thesis .
qed

text \<open>
  C9, as amended. The first thing Handle does to the outside is to construct the logger,
  once, before the workspace is prepared and so before any step, with the map
  \<open>union instance-wide job\<close>. That map holds every pair of the job's redacted values, and
  every pair of the instance-wide redacted values whose name the job does not define
  too; where both define a name, the logger receives the job's value for it and not the
  instance-wide one. Every name of either source is a name of the map.
\<close>

theorem Handle_logger_redaction:
  assumes "distinct (map fst (opt_RedactedValues (options h)))"
    and "distinct (map fst (RedactedValues job))"
  shows "\<exists>merged rest.
      snd (Handle env h ctx0 job) = EvNewLogger (ID job) merged # rest
      \<and> (\<forall>ev\<in>set rest. kind ev \<noteq> KNewLogger)
      \<and> merged = union (opt_RedactedValues (options h)) (RedactedValues job)
      \<and> set merged = set (RedactedValues job)
           \<union> {(k, v) \<in> set (opt_RedactedValues (options h)). k \<notin> fst ` set (RedactedValues job)}
      \<and> fst ` set merged
           = fst ` set (opt_RedactedValues (options h)) \<union> fst ` set (RedactedValues job)"
proof -
  let ?m = "union (opt_RedactedValues (options h)) (RedactedValues job)"
  from Handle_logger_first [OF surjective_pairing, of env h ctx0 job]
  obtain rest where 1: "snd (Handle env h ctx0 job) = EvNewLogger (ID job) ?m # rest"
    and 2: "\<forall>ev\<in>set rest. kind ev \<noteq> KNewLogger"
    by (elim exE conjE)
  have 3: "set ?m = set (RedactedValues job)
           \<union> {(k, v) \<in> set (opt_RedactedValues (options h)). k \<notin> fst ` set (RedactedValues job)}"
    using assms by (rule set_union)
  have 4: "fst ` set ?m
           = fst ` set (opt_RedactedValues (options h)) \<union> fst ` set (RedactedValues job)"
    by (rule keys_union)
  from 1 2 3 4 show ?thesis
    by (intro exI [of _ ?m] exI [of _ rest] conjI refl)
qed

theorem Handle_logger_redaction_witness:
  "distinct (map fst (opt_RedactedValues (options sample_handler)))
   \<and> distinct (map fst (RedactedValues sample_job))
   \<and> union (opt_RedactedValues (options sample_handler)) (RedactedValues sample_job)
       = [(''hunter2'', ''REDACTED''), (''token'', ''REDACTED'')]
   \<and> (\<exists>rest. snd (Handle ok_env sample_handler Background sample_job)
         = EvNewLogger 42 [(''hunter2'', ''REDACTED''), (''token'', ''REDACTED'')] # rest
         \<and> (\<forall>ev\<in>set rest. kind ev \<noteq> KNewLogger))"
proof -
  have a: "distinct (map fst (opt_RedactedValues (options sample_handler)))"
    by code_simp
  have b: "distinct (map fst (RedactedValues sample_job))"
    by code_simp
  have u: "union (opt_RedactedValues (options sample_handler)) (RedactedValues sample_job)
       = [(''hunter2'', ''REDACTED''), (''token'', ''REDACTED'')]"
    by code_simp
  have i: "ID sample_job = 42" by code_simp
  from Handle_logger_redaction [OF a b, of ok_env Background]
  have "\<exists>rest. snd (Handle ok_env sample_handler Background sample_job)
         = EvNewLogger 42 [(''hunter2'', ''REDACTED''), (''token'', ''REDACTED'')] # rest
         \<and> (\<forall>ev\<in>set rest. kind ev \<noteq> KNewLogger)"
    unfolding u i by (elim exE conjE) (intro exI conjI; simp)
  with a b u show ?thesis by (intro conjI)
qed

text \<open>The claim as it was stated fails where the two sources share a name: the
  instance-wide pair is not supplied to the logger.\<close>

theorem Handle_logger_redaction_counterexample:
  "(''hunter2'', ''REDACTED'') \<in> set (opt_RedactedValues (options sample_handler))
   \<and> hd (snd (Handle ok_env sample_handler Background clash_job))
       = EvNewLogger 42 [(''hunter2'', ''***'')]
   \<and> (''hunter2'', ''REDACTED'') \<notin> set [(''hunter2'', ''***'')]"
  by code_simp

subsection \<open>The deadline\<close>

lemma wrapError_deadline:
  "Is_DeadlineExceeded e \<Longrightarrow> wrapError env h e msg = Wrap (job_exceeded env h) msg"
  by (simp add: wrapError_def job_exceeded_def)

lemma stepCommands_Command:
  assumes "k < length (stepCommands h job)"
  shows "Command (stepCommands h job ! k) = [] \<longleftrightarrow> k < length (DockerSteps job)"
proof (cases "k < length (DockerSteps job)")
  case True
  then show ?thesis
    by (simp add: stepCommands_def nth_append dockerCommands_def nth_enumerate_eq
        dockerStepCommand_def)
next
  case False
  with assms have "k - length (DockerSteps job) < length (CliSteps job)"
    by (simp add: length_stepCommands)
  with False show ?thesis
    by (simp add: stepCommands_def nth_append cliCommands_def nth_enumerate_eq
        cliStepCommand_def)
qed

lemma run_events_failed:
  assumes R: "run_events env h ctx job sr runs" and M: "EvRun c cmd (Some e) \<in> set runs"
  shows "sr = Some (wrapError env h e
            (if Command cmd = [] then ''failed to perform docker step''
             else ''failed to perform src-cli step''))"
proof -
  from R consider
    (ok) "runs = map (\<lambda>c. EvRun ctx c None) (stepCommands h job)"
  | (failed) k e' where "k < length (stepCommands h job)"
      "sr = Some (wrapError env h e'
                  (if k < length (DockerSteps job) then ''failed to perform docker step''
                   else ''failed to perform src-cli step''))"
      "runs = map (\<lambda>c. EvRun ctx c None) (take k (stepCommands h job))
                  @ [EvRun ctx (stepCommands h job ! k) (Some e')]"
    unfolding run_events_def by blast
  then show ?thesis
  proof cases
    case ok
    with M show ?thesis by auto
  next
    case failed
    with M have "cmd = stepCommands h job ! k" "e = e'" by auto
    with failed(1,2) show ?thesis by (simp add: stepCommands_Command)
  qed
qed

lemma Handle_prepare_failed:
  assumes H: "Handle env h ctx0 job = (res, tr)"
    and M: "EvPrepareWorkspace c repo cm (Inl e) \<in> set tr"
  shows "res = Some (wrapError env h e ''failed to prepare workspace'')"
  using H
proof (cases rule: Handle_cases)
  case (PrepareFailed e' fin)
  from M PrepareFailed(1,3) have "e = e'"
    by (auto simp: handle_pre_def dest: kind_deferred_events)
  with PrepareFailed(2) show ?thesis by simp
next
  case (Stopped wd vr vmw e' fin)
  from M Stopped(1,3,5) show ?thesis
    by (auto simp: handle_pre_def dest: kind_deferred_events kind_vm_events)
next
  case (ScriptFailed wd vmw u e' sw fin)
  from M ScriptFailed(1,3,5,7) show ?thesis
    by (auto simp: handle_pre_def
        dest: kind_deferred_events kind_vm_events kind_name_events kind_script_fail_events)
next
  case (SetupReached wd vmw u evs fin)
  from M SetupReached(1,3,5,6) show ?thesis
    by (auto simp: handle_pre_def
        dest: kind_deferred_events kind_vm_events kind_name_events kind_script_events
          kind_setup_failed kind_setup_ok)
qed

lemma Handle_setup_failed:
  assumes H: "Handle env h ctx0 job = (res, tr)"
    and M: "EvSetup c imgs (Some e) \<in> set tr"
  shows "res = Some (wrapError env h e ''failed to setup virtual machine'')"
  using H
proof (cases rule: Handle_cases)
  case (PrepareFailed e' fin)
  from M PrepareFailed(1,3) show ?thesis
    by (auto dest: kind_handle_pre kind_deferred_events)
next
  case (Stopped wd vr vmw e' fin)
  from M Stopped(1,3,5) show ?thesis
    by (auto dest: kind_handle_pre kind_deferred_events kind_vm_events)
next
  case (ScriptFailed wd vmw u e' sw fin)
  from M ScriptFailed(1,3,5,7) show ?thesis
    by (auto dest: kind_handle_pre kind_deferred_events kind_vm_events kind_name_events
        kind_script_fail_events)
next
  case (SetupReached wd vmw u evs fin)
  from M SetupReached(1,3,6) have in_evs: "EvSetup c imgs (Some e) \<in> set evs"
    by (auto dest: kind_handle_pre kind_deferred_events kind_vm_events kind_name_events
        kind_script_events)
  from SetupReached(5) show ?thesis
  proof
    assume "setup_failed env h (jobContext env h ctx0) job res evs"
    with in_evs show ?thesis by (auto simp: setup_failed_def)
  next
    assume "setup_ok env h (jobContext env h ctx0) job res evs"
    with in_evs show ?thesis by (auto simp: setup_ok_def dest: kind_run_events)
  qed
qed

lemma Handle_run_failed:
  assumes H: "Handle env h ctx0 job = (res, tr)"
    and M: "EvRun c cmd (Some e) \<in> set tr"
  shows "\<exists>td. filter (\<lambda>ev. kind ev = KTeardown) tr = [EvTeardown Background td]
     \<and> res = (case td of
                None \<Rightarrow> Some (wrapError env h e
                    (if Command cmd = [] then ''failed to perform docker step''
                     else ''failed to perform src-cli step''))
              | Some te \<Rightarrow> Some (Multi (wrapError env h e
                    (if Command cmd = [] then ''failed to perform docker step''
                     else ''failed to perform src-cli step'') # flatten_err te)))"
proof -
  let ?ctx = "jobContext env h ctx0"
  from H have "EvSetup ?ctx (imageNames (DockerSteps job)) None \<in> set tr"
  proof (cases rule: Handle_cases)
    case (PrepareFailed e' fin)
    from M PrepareFailed(1,3) show ?thesis
      by (auto dest: kind_handle_pre kind_deferred_events)
  next
    case (Stopped wd vr vmw e' fin)
    from M Stopped(1,3,5) show ?thesis
      by (auto dest: kind_handle_pre kind_deferred_events kind_vm_events)
  next
    case (ScriptFailed wd vmw u e' sw fin)
    from M ScriptFailed(1,3,5,7) show ?thesis
      by (auto dest: kind_handle_pre kind_deferred_events kind_vm_events kind_name_events
          kind_script_fail_events)
  next
    case (SetupReached wd vmw u evs fin)
    from M SetupReached(1,3,6) have in_evs: "EvRun c cmd (Some e) \<in> set evs"
      by (auto dest: kind_handle_pre kind_deferred_events kind_vm_events kind_name_events
          kind_script_events)
    from SetupReached(5) show ?thesis
    proof
      assume "setup_failed env h ?ctx job res evs"
      with in_evs show ?thesis by (auto simp: setup_failed_def)
    next
      assume "setup_ok env h ?ctx job res evs"
      then show ?thesis unfolding SetupReached(1) by (auto simp: setup_ok_def)
    qed
  qed
  with H obtain wd vmw u sr runs td fin where
    tr: "tr = handle_pre env h ctx0 job (Inr wd) @ vmw @ name_events h wd u
       @ script_events env job wd
       @ EvSetup ?ctx (imageNames (DockerSteps job)) None # runs
       @ EvTeardown Background td # EvNameSetRemove (vmName h u) # EvRemoveAll wd # fin"
    and parts: "vm_events wd (VirtualMachineFiles job) vmw"
      "run_events env h ?ctx job sr runs" "deferred_events res fin"
    and res: "res = (case td of None \<Rightarrow> sr | Some te \<Rightarrow> Some (multierror_Append sr te))"
    by (rule Handle_setup_ok)
  have runs: "filter (\<lambda>ev. kind ev = KRun) tr = runs"
    and td: "filter (\<lambda>ev. kind ev = KTeardown) tr = [EvTeardown Background td]"
    using filter_kind_setup_ok [OF parts] by (simp_all add: tr)
  from M have "EvRun c cmd (Some e) \<in> set (filter (\<lambda>ev. kind ev = KRun) tr)" by simp
  with runs have "EvRun c cmd (Some e) \<in> set runs" by simp
  from run_events_failed [OF parts(2) this]
  have sr: "sr = Some (wrapError env h e
            (if Command cmd = [] then ''failed to perform docker step''
             else ''failed to perform src-cli step''))" .
  have "res = (case td of
                None \<Rightarrow> Some (wrapError env h e
                    (if Command cmd = [] then ''failed to perform docker step''
                     else ''failed to perform src-cli step''))
              | Some te \<Rightarrow> Some (Multi (wrapError env h e
                    (if Command cmd = [] then ''failed to perform docker step''
                     else ''failed to perform src-cli step'') # flatten_err te)))"
    unfolding res sr by (simp add: multierror_Append_def wrapError_def split: option.splits)
  with td show ?thesis by blast
qed

text \<open>
  C4, as amended. When a stage of Handle fails with an error for which
  \<^verbatim>\<open>errors.Is(err, context.DeadlineExceeded)\<close> holds, the raw error is replaced by the
  error "job exceeded maximum execution time of" followed by the configured duration,
  wrapped with the message of the stage. For the preparation of the workspace and for
  Setup that wrapped error is what Handle returns. For a docker step or a src-cli step it
  is what Handle returns when Teardown succeeds; when Teardown fails too, Handle returns
  the aggregate whose first member is that wrapped error and whose other members are the
  errors of Teardown.
\<close>

theorem Handle_deadline_error:
  assumes H: "Handle env h ctx0 job = (res, tr)" and D: "Is_DeadlineExceeded e"
  shows "(EvPrepareWorkspace c1 repo cm (Inl e) \<in> set tr \<longrightarrow>
            res = Some (Wrap (job_exceeded env h) ''failed to prepare workspace''))
     \<and> (EvSetup c2 imgs (Some e) \<in> set tr \<longrightarrow>
            res = Some (Wrap (job_exceeded env h) ''failed to setup virtual machine''))
     \<and> (EvRun c3 cmd (Some e) \<in> set tr \<longrightarrow>
          (\<exists>td. filter (\<lambda>ev. kind ev = KTeardown) tr = [EvTeardown Background td]
             \<and> res = (case td of
                  None \<Rightarrow> Some (Wrap (job_exceeded env h)
                      (if Command cmd = [] then ''failed to perform docker step''
                       else ''failed to perform src-cli step''))
                | Some te \<Rightarrow> Some (Multi (Wrap (job_exceeded env h)
                      (if Command cmd = [] then ''failed to perform docker step''
                       else ''failed to perform src-cli step'') # flatten_err te)))))"
  using Handle_prepare_failed [OF H, of c1 repo cm e] Handle_setup_failed [OF H, of c2 imgs e]
    Handle_run_failed [OF H, of c3 cmd e]
  unfolding wrapError_deadline [OF D] by (intro conjI impI)

theorem Handle_deadline_error_witness:
  "Is_DeadlineExceeded DeadlineExceeded
   \<and> EvRun (WithDeadline Background 1000000000) (stepCommands sample_handler sample_job ! 1)
        (Some DeadlineExceeded)
       \<in> set (snd (Handle deadline_only_env sample_handler Background sample_job))
   \<and> fst (Handle deadline_only_env sample_handler Background sample_job)
       = Some (Wrap (Errorf ''job exceeded maximum execution time of 1s'')
                ''failed to perform docker step'')"
proof -
  let ?H = "Handle deadline_only_env sample_handler Background sample_job"
  let ?cmd = "stepCommands sample_handler sample_job ! 1"
  have D: "Is_DeadlineExceeded DeadlineExceeded" by simp
  have M: "EvRun (WithDeadline Background 1000000000) ?cmd (Some DeadlineExceeded) \<in> set (snd ?H)"
    by code_simp
  have T: "filter (\<lambda>ev. kind ev = KTeardown) (snd ?H) = [EvTeardown Background None]"
    by code_simp
  have C: "Command ?cmd = []" by code_simp
  have X: "job_exceeded deadline_only_env sample_handler
      = Errorf ''job exceeded maximum execution time of 1s''"
    by code_simp
  from Handle_deadline_error [where env = deadline_only_env and h = sample_handler
      and ?ctx0.0 = Background and job = sample_job
      and ?c3.0 = "WithDeadline Background 1000000000"
      and cmd = "stepCommands sample_handler sample_job ! 1", OF surjective_pairing D,
      THEN conjunct2, THEN conjunct2, THEN mp, OF M]
  have "\<exists>td. filter (\<lambda>ev. kind ev = KTeardown) (snd ?H) = [EvTeardown Background td]
     \<and> fst ?H = (case td of
          None \<Rightarrow> Some (Wrap (job_exceeded deadline_only_env sample_handler)
              (if Command ?cmd = [] then ''failed to perform docker step''
               else ''failed to perform src-cli step''))
        | Some te \<Rightarrow> Some (Multi (Wrap (job_exceeded deadline_only_env sample_handler)
              (if Command ?cmd = [] then ''failed to perform docker step''
               else ''failed to perform src-cli step'') # flatten_err te)))"
    .
  then have "fst ?H = Some (Wrap (Errorf ''job exceeded maximum execution time of 1s'')
                ''failed to perform docker step'')"
    unfolding T C X by (elim exE conjE) simp
  with D M show ?thesis by (intro conjI)
qed

text \<open>The claim as it was stated fails where a step runs into the deadline and Teardown
  fails afterwards: Handle returns the aggregate, not the wrapped error alone.\<close>

theorem Handle_deadline_error_counterexample:
  "Is_DeadlineExceeded DeadlineExceeded
   \<and> EvRun (WithDeadline Background 1000000000) (stepCommands sample_handler sample_job ! 1)
        (Some DeadlineExceeded)
       \<in> set (snd (Handle deadline_env sample_handler Background sample_job))
   \<and> fst (Handle deadline_env sample_handler Background sample_job)
       = Some (Multi [Wrap (Errorf ''job exceeded maximum execution time of 1s'')
                        ''failed to perform docker step'', Errorf ''boom''])
   \<and> fst (Handle deadline_env sample_handler Background sample_job)
       \<noteq> Some (Wrap (Errorf ''job exceeded maximum execution time of 1s'')
                ''failed to perform docker step'')"
  by code_simp

subsection \<open>The virtual machine files\<close>

lemma Handle_workspace:
  assumes H: "Handle env h ctx0 job = (res, tr)"
    and P: "EvPrepareWorkspace c repo cm (Inr wd) \<in> set tr"
  obtains vr vmw rest where
    "tr = handle_pre env h ctx0 job (Inr wd) @ vmw @ rest"
    "writeVMFiles env wd (VirtualMachineFiles job) (handle_pre env h ctx0 job (Inr wd))
       = (vr, handle_pre env h ctx0 job (Inr wd) @ vmw)"
    "vr \<noteq> None \<longrightarrow> res \<noteq> None \<and> (\<exists>fin. rest = EvRemoveAll wd # fin \<and> deferred_events res fin)"
    "\<forall>ev\<in>set rest. kind ev \<noteq> KVMWrite"
  using H
proof (cases rule: Handle_cases)
  case (PrepareFailed e fin)
  from P PrepareFailed(1,3) show ?thesis
    by (auto simp: handle_pre_def dest: kind_deferred_events)
next
  case (Stopped wd' vr vmw e fin)
  from P Stopped(1,3,5) have wd: "wd' = wd"
    by (auto simp: handle_pre_def dest: kind_deferred_events kind_vm_events)
  have "\<forall>ev\<in>set (EvRemoveAll wd # fin). kind ev \<noteq> KVMWrite"
    using Stopped(5) by (auto dest: kind_deferred_events)
  with Stopped show ?thesis unfolding wd
    by (intro that [of vmw "EvRemoveAll wd # fin" vr]) simp_all
next
  case (ScriptFailed wd' vmw u e sw fin)
  from P ScriptFailed(1,3,5,7) have wd: "wd' = wd"
    by (auto simp: handle_pre_def
        dest: kind_deferred_events kind_vm_events kind_name_events kind_script_fail_events)
  let ?rest = "name_events h wd u @ sw @ EvNameSetRemove (vmName h u) # EvRemoveAll wd # fin"
  have "\<forall>ev\<in>set ?rest. kind ev \<noteq> KVMWrite"
    using ScriptFailed(5,7) unfolding wd
    by (auto dest: kind_deferred_events kind_name_events kind_script_fail_events)
  with ScriptFailed show ?thesis unfolding wd
    by (intro that [of vmw ?rest None]) simp_all
next
  case (SetupReached wd' vmw u evs fin)
  from P SetupReached(1,3,5,6) have wd: "wd' = wd"
    by (auto simp: handle_pre_def
        dest: kind_deferred_events kind_vm_events kind_name_events kind_script_events
          kind_setup_failed kind_setup_ok)
  let ?rest = "name_events h wd u @ script_events env job wd @ evs
      @ EvNameSetRemove (vmName h u) # EvRemoveAll wd # fin"
  have "\<forall>ev\<in>set ?rest. kind ev \<noteq> KVMWrite"
    using SetupReached(5,6) unfolding wd
    by (auto dest: kind_deferred_events kind_name_events kind_script_events
        kind_setup_failed kind_setup_ok)
  with SetupReached show ?thesis unfolding wd
    by (intro that [of vmw ?rest None]) simp_all
qed


lemma passes_guard_absolute:
  assumes "filepath_IsAbs wd"
  shows "passes_guard g wd rel
     = strings_HasPrefix (filepath_Clean (filepath_Join [wd, rel])) wd"
proof -
  from assms obtain w where wd: "wd = CHR ''/'' # w"
    by (cases wd) (auto simp: filepath_IsAbs_def strings_HasPrefix_def)
  have "filepath_IsAbs (filepath_Join [wd, rel])"
    by (simp add: wd filepath_Join_def filepath_Clean_def filepath_IsAbs_def
        strings_HasPrefix_def Let_def)
  then show ?thesis
    by (simp add: passes_guard_def filepath_Abs_def)
qed

text \<open>
  C2, as amended. Let the job's file map hold a file whose resolved path does not begin
  with the path of the working directory, whatever \<^verbatim>\<open>os.Getwd\<close> answers (\<open>passes_guard\<close>
  is the test of lines 109 to 116). Then Handle returns an error; it writes neither that
  file nor any file that the loop would visit after it; the files it has written are
  files visited before it, each under a path that begins with the path of the working
  directory; and it adds no name to the name set, writes no script and calls neither
  Setup, Run nor Teardown. (For an absolute working directory the test is a comparison
  of the cleaned path with the working directory as strings, \<open>passes_guard_absolute\<close>.)
\<close>

theorem Handle_path_guard:
  assumes H: "Handle env h ctx0 job = (res, tr)"
    and P: "EvPrepareWorkspace c repo cm (Inr wd) \<in> set tr"
    and F: "VirtualMachineFiles job = before @ (rel, content) # after"
    and G: "\<forall>g. \<not> passes_guard g wd rel"
  shows "res \<noteq> None
     \<and> (\<exists>n\<le>length before.
           list_all2 (\<lambda>ev (rel', c'). \<exists>p r. ev = EvWriteFile VMFile p c' r \<and> strings_HasPrefix p wd)
             (filter (\<lambda>ev. kind ev = KVMWrite) tr) (take n before))
     \<and> (\<forall>ev\<in>set tr. kind ev \<notin> {KNameSetAdd, KScriptWrite, KSetup, KRun, KTeardown})"
proof -
  let ?pre = "handle_pre env h ctx0 job (Inr wd)"
  from H P obtain vr vmw rest where
    tr: "tr = ?pre @ vmw @ rest"
    and w: "writeVMFiles env wd (VirtualMachineFiles job) ?pre = (vr, ?pre @ vmw)"
    and stop: "vr \<noteq> None \<longrightarrow> res \<noteq> None \<and> (\<exists>fin. rest = EvRemoveAll wd # fin \<and> deferred_events res fin)"
    and rest: "\<forall>ev\<in>set rest. kind ev \<noteq> KVMWrite"
    by (rule Handle_workspace)
  from writeVMFiles_rejects [OF w [unfolded F] G] obtain evs where
    vr: "vr \<noteq> None" and evs: "?pre @ vmw = ?pre @ evs" "length evs \<le> length before"
      "list_all2 (\<lambda>ev (rel, c). \<exists>p res. ev = EvWriteFile VMFile p c res \<and> strings_HasPrefix p wd)
          evs (take (length evs) before)"
    by blast
  from evs(1) have vmw: "vmw = evs" by simp
  from stop vr obtain fin where
    res: "res \<noteq> None" and fin: "rest = EvRemoveAll wd # fin" "deferred_events res fin"
    by blast
  have k: "\<forall>ev\<in>set vmw. kind ev = KVMWrite"
    using evs(3) unfolding vmw by (auto dest!: list_all2_memberD)
  have "filter (\<lambda>ev. kind ev = KVMWrite) ?pre = []"
    "filter (\<lambda>ev. kind ev = KVMWrite) vmw = vmw"
    "filter (\<lambda>ev. kind ev = KVMWrite) rest = []"
    using k rest by (auto simp: filter_empty_conv filter_id_conv dest: kind_handle_pre)
  then have f: "filter (\<lambda>ev. kind ev = KVMWrite) tr = vmw"
    by (simp add: tr)
  have 2: "\<exists>n\<le>length before.
           list_all2 (\<lambda>ev (rel', c'). \<exists>p r. ev = EvWriteFile VMFile p c' r \<and> strings_HasPrefix p wd)
             (filter (\<lambda>ev. kind ev = KVMWrite) tr) (take n before)"
    unfolding f vmw using evs(2,3) by blast
  have 3: "\<forall>ev\<in>set tr. kind ev \<notin> {KNameSetAdd, KScriptWrite, KSetup, KRun, KTeardown}"
    unfolding tr fin(1) using k fin(2)
    by (auto dest: kind_handle_pre kind_deferred_events)
  from res 2 3 show ?thesis by (intro conjI)
qed

theorem Handle_path_guard_witness:
  "EvPrepareWorkspace (WithDeadline Background 1000000000) ''github.com/sourcegraph/sourcegraph''
       ''deadbeef'' (Inr ''/tmp/work'')
     \<in> set (snd (Handle ok_env sample_handler Background escape_job))
   \<and> VirtualMachineFiles escape_job
       = [(''a.txt'', ''x'')] @ (''../escape'', ''y'') # [(''b.txt'', ''z'')]
   \<and> (\<forall>g. \<not> passes_guard g ''/tmp/work'' ''../escape'')
   \<and> fst (Handle ok_env sample_handler Background escape_job)
       = Some (Errorf ''refusing to write outside of working directory'')
   \<and> filter (\<lambda>ev. kind ev = KVMWrite) (snd (Handle ok_env sample_handler Background escape_job))
       = [EvWriteFile VMFile ''/tmp/work/a.txt'' ''x'' None]
   \<and> (\<exists>n\<le>length [(''a.txt'', ''x'')].
         list_all2 (\<lambda>ev (rel', c'). \<exists>p r. ev = EvWriteFile VMFile p c' r
                       \<and> strings_HasPrefix p ''/tmp/work'')
           (filter (\<lambda>ev. kind ev = KVMWrite)
              (snd (Handle ok_env sample_handler Background escape_job)))
           (take n [(''a.txt'', ''x'')]))"
proof -
  let ?H = "Handle ok_env sample_handler Background escape_job"
  have P: "EvPrepareWorkspace (WithDeadline Background 1000000000)
       ''github.com/sourcegraph/sourcegraph'' ''deadbeef'' (Inr ''/tmp/work'') \<in> set (snd ?H)"
    by code_simp
  have F: "VirtualMachineFiles escape_job
       = [(''a.txt'', ''x'')] @ (''../escape'', ''y'') # [(''b.txt'', ''z'')]"
    by code_simp
  have "filepath_IsAbs ''/tmp/work''" by code_simp
  moreover have "\<not> strings_HasPrefix
      (filepath_Clean (filepath_Join [''/tmp/work'', ''../escape''])) ''/tmp/work''"
    by code_simp
  ultimately have G: "\<forall>g. \<not> passes_guard g ''/tmp/work'' ''../escape''"
    by (simp add: passes_guard_absolute)
  have R: "fst ?H = Some (Errorf ''refusing to write outside of working directory'')"
    by code_simp
  have W: "filter (\<lambda>ev. kind ev = KVMWrite) (snd ?H)
       = [EvWriteFile VMFile ''/tmp/work/a.txt'' ''x'' None]"
    by code_simp
  from Handle_path_guard [OF surjective_pairing P F G]
  have "\<exists>n\<le>length [(''a.txt'', ''x'')].
         list_all2 (\<lambda>ev (rel', c'). \<exists>p r. ev = EvWriteFile VMFile p c' r
                       \<and> strings_HasPrefix p ''/tmp/work'')
           (filter (\<lambda>ev. kind ev = KVMWrite) (snd ?H)) (take n [(''a.txt'', ''x'')])"
    by (elim conjE)
  with P F G R W show ?thesis by (intro conjI)
qed

text \<open>The claim as it was stated fails where the loop visits another file first: that
  file is written before the escaping one is rejected.\<close>

theorem Handle_path_guard_counterexample:
  "(''../escape'', ''y'') \<in> set (VirtualMachineFiles escape_job)
   \<and> EvPrepareWorkspace (WithDeadline Background 1000000000) ''github.com/sourcegraph/sourcegraph''
       ''deadbeef'' (Inr ''/tmp/work'')
     \<in> set (snd (Handle ok_env sample_handler Background escape_job))
   \<and> filepath_Abs (Inr ''/'') (filepath_Join [''/tmp/work'', ''../escape'']) = Inr ''/tmp/escape''
   \<and> EvWriteFile VMFile ''/tmp/work/a.txt'' ''x'' None
     \<in> set (snd (Handle ok_env sample_handler Background escape_job))"
  by code_simp

text \<open>The test compares strings, not path elements: a path in a sibling directory whose
  name begins with the name of the working directory passes it, and the file is written
  outside the working directory.\<close>

lemma Handle_guard_compares_strings:
  "filepath_Abs (Inr ''/'') (filepath_Join [''/tmp/work'', ''../work-evil/x'']) = Inr ''/tmp/work-evil/x''
   \<and> passes_guard (Inr ''/'') ''/tmp/work'' ''../work-evil/x''
   \<and> fst (Handle ok_env sample_handler Background sibling_job) = None
   \<and> EvWriteFile VMFile ''/tmp/work-evil/x'' ''y'' None
     \<in> set (snd (Handle ok_env sample_handler Background sibling_job))"
  by code_simp

end
